theory Spec2Isabelle
  imports Complex_Main "HOL-Library.AList"
begin

section \<open>Python values\<close>

text \<open>
  The engine of \<^verbatim>\<open>plugins/module_utils/vultr_v2.py\<close> handles module parameters and
  JSON-decoded API answers without looking at their types first, so the model has one type
  of Python values. A dict is an association list with distinct keys in insertion order
  (all keys are strings: parameter names and JSON object keys). JSON numbers with a
  fractional part are not modelled.
\<close>

datatype val = VNone | VBool bool | VInt int | VStr string | VList "val list"
  | VDict "(string \<times> val) list"

text \<open>Python's \<^verbatim>\<open>==\<close>: \<^verbatim>\<open>True == 1\<close>, lists compare element by element, dicts
  compare as mappings whatever the order of their keys.\<close>

fun py_eq :: "val \<Rightarrow> val \<Rightarrow> bool"
  and py_eq_list :: "val list \<Rightarrow> val list \<Rightarrow> bool"
  and py_eq_items :: "(string \<times> val) list \<Rightarrow> (string \<times> val) list \<Rightarrow> bool" where
  "py_eq VNone VNone = True"
| "py_eq (VBool a) (VBool b) = (a = b)"
| "py_eq (VBool a) (VInt b) = ((if a then 1 else 0) = b)"
| "py_eq (VInt a) (VBool b) = (a = (if b then 1 else 0))"
| "py_eq (VInt a) (VInt b) = (a = b)"
| "py_eq (VStr a) (VStr b) = (a = b)"
| "py_eq (VList a) (VList b) = py_eq_list a b"
| "py_eq (VDict a) (VDict b) = (length a = length b \<and> py_eq_items a b)"
| "py_eq _ _ = False"
| "py_eq_list [] [] = True"
| "py_eq_list (x # xs) (y # ys) = (py_eq x y \<and> py_eq_list xs ys)"
| "py_eq_list _ _ = False"
| "py_eq_items [] b = True"
| "py_eq_items ((k, v) # a) b =
     (case map_of b k of None \<Rightarrow> False | Some w \<Rightarrow> py_eq v w \<and> py_eq_items a b)"

text \<open>Truth value of a Python value, as \<^verbatim>\<open>if resource:\<close> takes it.\<close>

fun py_truthy :: "val \<Rightarrow> bool" where
  "py_truthy VNone = False"
| "py_truthy (VBool b) = b"
| "py_truthy (VInt i) = (i \<noteq> 0)"
| "py_truthy (VStr s) = (s \<noteq> [])"
| "py_truthy (VList xs) = (xs \<noteq> [])"
| "py_truthy (VDict d) = (d \<noteq> [])"

section \<open>Transport, errors and results\<close>

text \<open>\<^verbatim>\<open>fetch_url\<close> returns a response object and the dict \<^verbatim>\<open>info\<close>. The model keeps
  \<^verbatim>\<open>info['status']\<close>, the other entries of \<^verbatim>\<open>info\<close>, and what
  \<^verbatim>\<open>from_json(to_text(resp.read()))\<close> gives: the decoded value, or nothing when the
  body is not JSON.\<close>

record info =
  status :: int
  details :: "(string \<times> val) list"

record response =
  info :: info
  body :: "val option"

record request =
  url :: string
  meth :: string
  data :: val
  headers :: "(string \<times> string) list"
  timeout :: int

text \<open>Every way a call can end without returning: \<^verbatim>\<open>fail_json\<close> with its message and
  the transport's \<^verbatim>\<open>info\<close>, and the exceptions of the Python runtime.\<close>

datatype error = FailJson string info | UnboundLocalError | ValueError | OverflowError
  | KeyError | TypeError | AttributeError | RecursionError | JSONDecodeError

text \<open>\<^verbatim>\<open>self.result\<close>. The entry stored under the key \<^verbatim>\<open>namespace\<close> is the field
  \<open>payload\<close>; the namespace of a descriptor is taken to differ from the three fixed keys
  \<^verbatim>\<open>changed\<close>, \<^verbatim>\<open>diff\<close> and \<^verbatim>\<open>vultr_api\<close>.\<close>

record result =
  changed :: bool
  payload :: val
  diff_before :: "(string \<times> val) list"
  diff_after :: "(string \<times> val) list"
  vultr_api :: "(string \<times> val) list"

text \<open>What an invocation does to the outside, in order: an HTTP request with its answer,
  a \<^verbatim>\<open>time.sleep\<close>, and \<^verbatim>\<open>exit_json\<close> with the result it hands over.\<close>

datatype event = Fetched request response | Slept rat | Exited result

record 's state =
  server :: 's
  draws :: nat
  trace :: "event list"
  result :: result

text \<open>The surroundings of a run: the transport (one HTTP request against the state of the
  remote side), the source of \<^verbatim>\<open>random.randint\<close>, Python's \<^verbatim>\<open>str()\<close> on values
  that are not strings (as \<^verbatim>\<open>%s\<close> formats them), and how many nested \<^verbatim>\<open>query\<close>
  calls the interpreter allows before it raises RecursionError.\<close>

record 's runtime =
  fetch_url :: "'s \<Rightarrow> request \<Rightarrow> response \<times> 's"
  entropy :: "nat \<Rightarrow> nat"
  py_str :: "val \<Rightarrow> string"
  recursion_limit :: nat

section \<open>The module and the engine object\<close>

text \<open>\<^verbatim>\<open>module.params\<close> under \<^verbatim>\<open>vultr_argument_spec\<close>: the five API settings with the
  types the argument spec gives them, and the parameters of the adapter.\<close>

record ansible_module =
  api_endpoint :: string
  api_key :: string
  api_timeout :: int
  api_retries :: int
  api_retry_max_delay :: int
  params :: "(string \<times> val) list"
  check_mode :: bool

definition vultr_argument_spec :: "string \<Rightarrow> (string \<times> val) list \<Rightarrow> bool \<Rightarrow> ansible_module" where
  "vultr_argument_spec key ps chk =
     \<lparr>api_endpoint = ''https://api.vultr.com/v2'', api_key = key, api_timeout = 60,
      api_retries = 5, api_retry_max_delay = 12, params = ps, check_mode = chk\<rparr>"

text \<open>\<^verbatim>\<open>module.params.get(name)\<close>\<close>

definition params_get :: "ansible_module \<Rightarrow> string \<Rightarrow> val" where
  "params_get m name =
     (if name = ''api_endpoint'' then VStr (api_endpoint m)
      else if name = ''api_key'' then VStr (api_key m)
      else if name = ''api_timeout'' then VInt (api_timeout m)
      else if name = ''api_retries'' then VInt (api_retries m)
      else if name = ''api_retry_max_delay'' then VInt (api_retry_max_delay m)
      else (case map_of (params m) name of None \<Rightarrow> VNone | Some v \<Rightarrow> v))"

record vultr =
  module :: ansible_module
  namespace :: string
  resource_path :: string
  ressource_result_key_singular :: string
  ressource_result_key_plural :: string
  resource_key_name :: string
  resource_key_id :: string
  resource_get_details :: bool
  resource_create_param_keys :: "string list"
  resource_update_param_keys :: "string list"
  resource_update_method :: string

text \<open>\<^verbatim>\<open>x or default\<close> for an optional string or list argument.\<close>

definition or_default :: "'a list option \<Rightarrow> 'a list \<Rightarrow> 'a list" where
  "or_default x d = (case x of None \<Rightarrow> d | Some v \<Rightarrow> if v = [] then d else v)"

text \<open>\<^verbatim>\<open>AnsibleVultr.__init__\<close>: the attributes, and the first value of \<^verbatim>\<open>self.result\<close>.\<close>

definition init_vultr ::
  "ansible_module \<Rightarrow> string \<Rightarrow> string \<Rightarrow> string \<Rightarrow> string option \<Rightarrow> string \<Rightarrow> string \<Rightarrow> bool
     \<Rightarrow> string list option \<Rightarrow> string list option \<Rightarrow> string \<Rightarrow> vultr" where
  "init_vultr m ns path singular plural key_name key_id get_details create_keys update_keys
      update_method =
     \<lparr>module = m, namespace = ns, resource_path = path,
      ressource_result_key_singular = singular,
      ressource_result_key_plural = or_default plural (singular @ ''s''),
      resource_key_name = key_name, resource_key_id = key_id,
      resource_get_details = get_details,
      resource_create_param_keys = or_default create_keys [''name''],
      resource_update_param_keys = or_default update_keys [''name''],
      resource_update_method = update_method\<rparr>"

definition init_result :: "ansible_module \<Rightarrow> result" where
  "init_result m =
     \<lparr>changed = False, payload = VDict [], diff_before = [], diff_after = [],
      vultr_api = [(''api_timeout'', VInt (api_timeout m)),
                   (''api_retries'', VInt (api_retries m)),
                   (''api_retry_max_delay'', VInt (api_retry_max_delay m)),
                   (''api_endpoint'', VStr (api_endpoint m))]\<rparr>"

definition init_state :: "'s \<Rightarrow> vultr \<Rightarrow> 's state" where
  "init_state s self = \<lparr>server = s, draws = 0, trace = [], result = init_result (module self)\<rparr>"

definition VULTR_USER_AGENT :: string where
  "VULTR_USER_AGENT = ''Ansible Vultr v2''"

definition self_headers :: "vultr \<Rightarrow> (string \<times> string) list" where
  "self_headers self =
     [(''Authorization'', ''Bearer '' @ api_key (module self)),
      (''User-Agent'', VULTR_USER_AGENT),
      (''Accept'', ''application/json'')]"

section \<open>Operations of the Python runtime the engine uses\<close>

text \<open>\<^verbatim>\<open>resource[key]\<close> with a string key.\<close>

fun subscript :: "val \<Rightarrow> string \<Rightarrow> error + val" where
  "subscript (VDict d) k = (case map_of d k of None \<Rightarrow> Inl KeyError | Some v \<Rightarrow> Inr v)"
| "subscript _ k = Inl TypeError"

text \<open>\<^verbatim>\<open>resource.get(key)\<close>: only a dict has the method.\<close>

fun py_get :: "val \<Rightarrow> string \<Rightarrow> error + val" where
  "py_get (VDict d) k = Inr (case map_of d k of None \<Rightarrow> VNone | Some v \<Rightarrow> v)"
| "py_get _ k = Inl AttributeError"

text \<open>\<^verbatim>\<open>t in s\<close> for two strings.\<close>

fun py_in_str :: "string \<Rightarrow> string \<Rightarrow> bool" where
  "py_in_str t [] = (t = [])"
| "py_in_str t (c # s) = (take (length t) (c # s) = t \<or> py_in_str t s)"

text \<open>\<^verbatim>\<open>v in container\<close>: elements of a list, keys of a dict (an unhashable \<open>v\<close>
  raises), substrings of a string; nothing else supports membership.\<close>

fun py_in :: "val \<Rightarrow> val \<Rightarrow> error + bool" where
  "py_in v (VList xs) = Inr (list_ex (\<lambda>x. py_eq x v) xs)"
| "py_in v (VDict d) =
     (case v of VList _ \<Rightarrow> Inl TypeError | VDict _ \<Rightarrow> Inl TypeError
      | VStr s \<Rightarrow> Inr (list_ex (\<lambda>kv. fst kv = s) d) | _ \<Rightarrow> Inr False)"
| "py_in v (VStr s) = (case v of VStr t \<Rightarrow> Inr (py_in_str t s) | _ \<Rightarrow> Inl TypeError)"
| "py_in v _ = Inl TypeError"

text \<open>The elements a \<^verbatim>\<open>for\<close> loop visits.\<close>

fun py_iter :: "val \<Rightarrow> error + val list" where
  "py_iter (VList xs) = Inr xs"
| "py_iter (VDict d) = Inr (map (\<lambda>kv. VStr (fst kv)) d)"
| "py_iter (VStr s) = Inr (map (\<lambda>c. VStr [c]) s)"
| "py_iter _ = Inl TypeError"

text \<open>\<^verbatim>\<open>dict(**resource)\<close>\<close>

fun dict_copy :: "val \<Rightarrow> error + (string \<times> val) list" where
  "dict_copy (VDict d) = Inr d"
| "dict_copy _ = Inl TypeError"

text \<open>\<^verbatim>\<open>d.update(other)\<close>: the entries of \<open>other\<close> in their order, each one replacing the
  value of its key where \<open>d\<close> has the key and appended at the end where not.\<close>

definition dict_update ::
  "(string \<times> val) list \<Rightarrow> (string \<times> val) list \<Rightarrow> (string \<times> val) list" where
  "dict_update d other = foldl (\<lambda>acc kv. AList.update (fst kv) (snd kv) acc) d other"

text \<open>\<^verbatim>\<open>'%s' % v\<close>\<close>

definition format_s :: "'s runtime \<Rightarrow> val \<Rightarrow> string" where
  "format_s rt v = (case v of VStr s \<Rightarrow> s | _ \<Rightarrow> py_str rt v)"

text \<open>\<^verbatim>\<open>range(0, n)\<close>\<close>

definition py_range :: "int \<Rightarrow> nat list" where
  "py_range n = [0..<nat n]"

section \<open>The resilient API client\<close>

text \<open>A call either returns a value or ends with an error; in both cases it leaves a state
  behind (the trace of what it did, the result dict as far as it was filled).\<close>

type_synonym ('a, 's) action = "'s state \<Rightarrow> (error + 'a) \<times> 's state"

text \<open>\<^verbatim>\<open>random.randint(a, b)\<close> for \<open>a \<le> b\<close>: some integer of the closed range.\<close>

definition randint :: "'s runtime \<Rightarrow> int \<Rightarrow> int \<Rightarrow> 's state \<Rightarrow> int \<times> 's state" where
  "randint rt a b w =
     (a + int (entropy rt (draws w) mod nat (b - a + 1)), w\<lparr>draws := Suc (draws w)\<rparr>)"

text \<open>\<^verbatim>\<open>time.sleep(delay)\<close> of CPython 3 first converts the length to its clock, a signed
  64-bit count of nanoseconds, and raises OverflowError on a length that the clock cannot
  hold; then it raises ValueError on a negative length.\<close>

definition beyond_clock :: "rat \<Rightarrow> bool" where
  "beyond_clock d = (d * 10 ^ 9 < - (2 ^ 63) \<or> 2 ^ 63 \<le> d * 10 ^ 9)"

definition sleep :: "rat \<Rightarrow> (unit, 's) action" where
  "sleep d w =
     (if beyond_clock d then (Inl OverflowError, w)
      else if d < 0 then (Inl ValueError, w)
      else (Inr (), w\<lparr>trace := trace w @ [Slept d]\<rparr>))"

definition fetch :: "'s runtime \<Rightarrow> request \<Rightarrow> 's state \<Rightarrow> response \<times> 's state" where
  "fetch rt req w =
     (case fetch_url rt (server w) req of
        (resp, s') \<Rightarrow> (resp, w\<lparr>server := s', trace := trace w @ [Fetched req resp]\<rparr>))"

text \<open>Python adds an int to a float by converting the int to a float first, and the
  conversion raises OverflowError when the int rounds to a value beyond the largest float:
  from \<open>2 ^ 1024 - 2 ^ 970\<close> on in absolute value. A comparison of a float with an int
  converts nothing.\<close>

definition too_large_for_float :: "int \<Rightarrow> bool" where
  "too_large_for_float i = (2 ^ 1024 - 2 ^ 970 \<le> \<bar>i\<bar>)"

text \<open>Lines 138 to 140: the delay before the next attempt. Both sums add an int,
  \<^verbatim>\<open>2 ** retry\<close> or \<^verbatim>\<open>retry_max_delay\<close>, to the float \<^verbatim>\<open>randomness\<close>, so either can raise
  OverflowError. A sum that does not is taken exactly, where the code has the nearest
  float.\<close>

definition backoff_delay :: "nat \<Rightarrow> rat \<Rightarrow> int \<Rightarrow> error + rat" where
  "backoff_delay retry randomness retry_max_delay =
     (if too_large_for_float (2 ^ retry) then Inl OverflowError
      else
        let delay = 2 ^ retry + randomness in
        if delay > of_int retry_max_delay then
          (if too_large_for_float retry_max_delay then Inl OverflowError
           else Inr (of_int retry_max_delay + randomness))
        else Inr delay)"

text \<open>The \<^verbatim>\<open>for retry in range(...)\<close> loop of \<^verbatim>\<open>api_query\<close>, over the retry indices
  still to come. It returns the last \<^verbatim>\<open>resp, info\<close> bound, if any.\<close>

fun retry_loop ::
  "'s runtime \<Rightarrow> request \<Rightarrow> rat \<Rightarrow> int \<Rightarrow> nat list \<Rightarrow> response option
     \<Rightarrow> (response option, 's) action" where
  "retry_loop rt req randomness retry_max_delay [] bound w = (Inr bound, w)"
| "retry_loop rt req randomness retry_max_delay (retry # rest) bound w =
     (case fetch rt req w of
        (resp, w1) \<Rightarrow>
          if status (info resp) \<noteq> 429 then (Inr (Some resp), w1)
          else (case backoff_delay retry randomness retry_max_delay of
                  Inl e \<Rightarrow> (Inl e, w1)
                | Inr delay \<Rightarrow>
                    (case sleep delay w1 of
                       (Inl e, w2) \<Rightarrow> (Inl e, w2)
                     | (Inr u, w2) \<Rightarrow>
                         retry_loop rt req randomness retry_max_delay rest (Some resp) w2)))"

definition fail_msg :: "string \<Rightarrow> string \<Rightarrow> string" where
  "fail_msg method path =
     ''Failure while calling the Vultr API v2 with '' @ method @ '' for '' @ [CHR 0x22] @ path
       @ [CHR 0x22] @ ''.''"

definition api_request :: "vultr \<Rightarrow> string \<Rightarrow> string \<Rightarrow> val \<Rightarrow> request" where
  "api_request self path method dat =
     \<lparr>url = api_endpoint (module self) @ path, meth = method, data = dat,
      headers = self_headers self, timeout = api_timeout (module self)\<rparr>"

definition api_query :: "'s runtime \<Rightarrow> vultr \<Rightarrow> string \<Rightarrow> string \<Rightarrow> val \<Rightarrow> (val, 's) action" where
  "api_query rt self path method dat w =
     (let retry_max_delay = api_retry_max_delay (module self) in
      case randint rt 0 1000 w of
        (r, w0) \<Rightarrow>
          let randomness = of_int r / 1000 in
          case retry_loop rt (api_request self path method dat) randomness retry_max_delay
                 (py_range (api_retries (module self))) None w0 of
            (Inl e, w1) \<Rightarrow> (Inl e, w1)
          | (Inr None, w1) \<Rightarrow> (Inl UnboundLocalError, w1)
          | (Inr (Some resp), w1) \<Rightarrow>
              if status (info resp) = 200 \<or> status (info resp) = 201 then
                (case body resp of
                   None \<Rightarrow> (Inl JSONDecodeError, w1)
                 | Some v \<Rightarrow> (Inr v, w1))
              else if status (info resp) = 404 \<or> status (info resp) = 204 then (Inr VNone, w1)
              else (Inl (FailJson (fail_msg method path) (info resp)), w1))"

section \<open>The resource reconciler\<close>

text \<open>The path suffix of \<^verbatim>\<open>query(resource_id)\<close>:
  \<^verbatim>\<open>"/" + resource_id if resource_id else resource_id\<close>, formatted with \<^verbatim>\<open>%s\<close>.\<close>

definition id_suffix :: "'s runtime \<Rightarrow> val \<Rightarrow> error + string" where
  "id_suffix rt resource_id =
     (if py_truthy resource_id then
        (case resource_id of VStr s \<Rightarrow> Inr (''/'' @ s) | _ \<Rightarrow> Inl TypeError)
      else Inr (format_s rt resource_id))"

definition query_list :: "'s runtime \<Rightarrow> vultr \<Rightarrow> (val, 's) action" where
  "query_list rt self w =
     (case api_query rt self (resource_path self) ''GET'' VNone w of
        (Inl e, w1) \<Rightarrow> (Inl e, w1)
      | (Inr resources, w1) \<Rightarrow>
          if py_truthy resources then (subscript resources (ressource_result_key_plural self), w1)
          else (Inr (VList []), w1))"

text \<open>The scan of \<^verbatim>\<open>query\<close>: the first element whose name field equals the wanted name;
  an element before it that has no \<^verbatim>\<open>get\<close> raises.\<close>

fun find_resource :: "val list \<Rightarrow> string \<Rightarrow> val \<Rightarrow> error + val option" where
  "find_resource [] key_name wanted = Inr None"
| "find_resource (resource # rest) key_name wanted =
     (case py_get resource key_name of
        Inl e \<Rightarrow> Inl e
      | Inr name \<Rightarrow> if py_eq name wanted then Inr (Some resource)
                    else find_resource rest key_name wanted)"

text \<open>\<^verbatim>\<open>query\<close>, with the number of nested calls the interpreter still allows.\<close>

fun query_rec :: "'s runtime \<Rightarrow> vultr \<Rightarrow> nat \<Rightarrow> val \<Rightarrow> (val, 's) action" where
  "query_rec rt self 0 resource_id w = (Inl RecursionError, w)"
| "query_rec rt self (Suc depth) resource_id w =
     (if resource_id \<noteq> VNone then
        (case id_suffix rt resource_id of
           Inl e \<Rightarrow> (Inl e, w)
         | Inr suffix \<Rightarrow>
             (case api_query rt self (resource_path self @ suffix) ''GET'' VNone w of
                (Inl e, w1) \<Rightarrow> (Inl e, w1)
              | (Inr resource, w1) \<Rightarrow>
                  if py_truthy resource
                  then (subscript resource (ressource_result_key_singular self), w1)
                  else (Inr (VDict []), w1)))
      else
        (case query_list rt self w of
           (Inl e, w1) \<Rightarrow> (Inl e, w1)
         | (Inr resources, w1) \<Rightarrow>
             (case py_iter resources of
                Inl e \<Rightarrow> (Inl e, w1)
              | Inr rs \<Rightarrow>
                  (case find_resource rs (resource_key_name self)
                          (params_get (module self) (resource_key_name self)) of
                     Inl e \<Rightarrow> (Inl e, w1)
                   | Inr None \<Rightarrow> (Inr (VDict []), w1)
                   | Inr (Some resource) \<Rightarrow>
                       if resource_get_details self then
                         (case subscript resource (resource_key_id self) of
                            Inl e \<Rightarrow> (Inl e, w1)
                          | Inr rid \<Rightarrow> query_rec rt self depth rid w1)
                       else (Inr resource, w1)))))"

definition query :: "'s runtime \<Rightarrow> vultr \<Rightarrow> val \<Rightarrow> (val, 's) action" where
  "query rt self resource_id = query_rec rt self (recursion_limit rt) resource_id"

text \<open>The request body of \<^verbatim>\<open>create\<close> and \<^verbatim>\<open>update\<close>:
  \<^verbatim>\<open>data[param] = self.module.params.get(param)\<close> for each key in turn.\<close>

definition build_data :: "ansible_module \<Rightarrow> string list \<Rightarrow> (string \<times> val) list" where
  "build_data m keys = foldl (\<lambda>dat param. AList.update param (params_get m param) dat) [] keys"

definition create :: "'s runtime \<Rightarrow> vultr \<Rightarrow> (val, 's) action" where
  "create rt self w =
     (let dat = build_data (module self) (resource_create_param_keys self);
          w1 = w\<lparr>result := (result w)\<lparr>changed := True, diff_before := [], diff_after := dat\<rparr>\<rparr>
      in if \<not> check_mode (module self) then
           (case api_query rt self (resource_path self) ''POST'' (VDict dat) w1 of
              (Inl e, w2) \<Rightarrow> (Inl e, w2)
            | (Inr resource, w2) \<Rightarrow>
                if py_truthy resource
                then (py_get resource (ressource_result_key_singular self), w2)
                else (Inr (VDict []), w2))
         else (Inr (VDict []), w1))"

text \<open>The inner loop of \<^verbatim>\<open>is_diff\<close> for a list value: True as soon as an element is not
  in \<^verbatim>\<open>resource[key]\<close>, which is looked up for each element.\<close>

fun any_missing :: "val list \<Rightarrow> string \<Rightarrow> val \<Rightarrow> error + bool" where
  "any_missing [] key resource = Inr False"
| "any_missing (v # vs) key resource =
     (case subscript resource key of
        Inl e \<Rightarrow> Inl e
      | Inr field \<Rightarrow>
          (case py_in v field of
             Inl e \<Rightarrow> Inl e
           | Inr present \<Rightarrow> if \<not> present then Inr True else any_missing vs key resource))"

fun is_diff :: "(string \<times> val) list \<Rightarrow> val \<Rightarrow> error + bool" where
  "is_diff [] resource = Inr False"
| "is_diff ((key, value) # rest) resource =
     (case value of
        VNone \<Rightarrow> is_diff rest resource
      | VList vs \<Rightarrow>
          (case any_missing vs key resource of
             Inl e \<Rightarrow> Inl e
           | Inr found \<Rightarrow> if found then Inr True else is_diff rest resource)
      | _ \<Rightarrow>
          (case subscript resource key of
             Inl e \<Rightarrow> Inl e
           | Inr field \<Rightarrow> if \<not> py_eq field value then Inr True else is_diff rest resource))"

definition update :: "'s runtime \<Rightarrow> vultr \<Rightarrow> val \<Rightarrow> (val, 's) action" where
  "update rt self resource w =
     (let dat = build_data (module self) (resource_update_param_keys self) in
      case is_diff dat resource of
        Inl e \<Rightarrow> (Inl e, w)
      | Inr differs \<Rightarrow>
          if differs then
            (let w1 = w\<lparr>result := (result w)\<lparr>changed := True\<rparr>\<rparr> in
             case dict_copy resource of
               Inl e \<Rightarrow> (Inl e, w1)
             | Inr snapshot \<Rightarrow>
                 let w2 = w1\<lparr>result := (result w1)\<lparr>diff_before := snapshot,
                             diff_after := dict_update snapshot dat\<rparr>\<rparr>
                 in if \<not> check_mode (module self) then
                      (case subscript resource (resource_key_id self) of
                         Inl e \<Rightarrow> (Inl e, w2)
                       | Inr rid \<Rightarrow>
                           (case api_query rt self (resource_path self @ ''/'' @ format_s rt rid)
                                   (resource_update_method self) (VDict dat) w2 of
                              (Inl e, w3) \<Rightarrow> (Inl e, w3)
                            | (Inr written, w3) \<Rightarrow> query rt self rid w3))
                    else (Inr resource, w2))
          else (Inr resource, w))"

text \<open>\<^verbatim>\<open>get_result\<close>: the resource goes under the namespace, and \<^verbatim>\<open>exit_json\<close> hands the
  result over.\<close>

definition get_result :: "vultr \<Rightarrow> val \<Rightarrow> (unit, 's) action" where
  "get_result self resource w =
     (let r = (result w)\<lparr>payload := resource\<rparr>
      in (Inr (), w\<lparr>result := r, trace := trace w @ [Exited r]\<rparr>))"

definition absent :: "'s runtime \<Rightarrow> vultr \<Rightarrow> (unit, 's) action" where
  "absent rt self w =
     (case query rt self VNone w of
        (Inl e, w1) \<Rightarrow> (Inl e, w1)
      | (Inr resource, w1) \<Rightarrow>
          if py_truthy resource then
            (let w2 = w1\<lparr>result := (result w1)\<lparr>changed := True\<rparr>\<rparr> in
             case dict_copy resource of
               Inl e \<Rightarrow> (Inl e, w2)
             | Inr snapshot \<Rightarrow>
                 let w3 = w2\<lparr>result := (result w2)\<lparr>diff_before := snapshot, diff_after := []\<rparr>\<rparr>
                 in if \<not> check_mode (module self) then
                      (case subscript resource (resource_key_id self) of
                         Inl e \<Rightarrow> (Inl e, w3)
                       | Inr rid \<Rightarrow>
                           (case api_query rt self (resource_path self @ ''/'' @ format_s rt rid)
                                   ''DELETE'' VNone w3 of
                              (Inl e, w4) \<Rightarrow> (Inl e, w4)
                            | (Inr deleted, w4) \<Rightarrow> get_result self resource w4))
                    else get_result self resource w3)
          else get_result self resource w1)"

definition present :: "'s runtime \<Rightarrow> vultr \<Rightarrow> (unit, 's) action" where
  "present rt self w =
     (case query rt self VNone w of
        (Inl e, w1) \<Rightarrow> (Inl e, w1)
      | (Inr resource, w1) \<Rightarrow>
          if \<not> py_truthy resource then
            (case create rt self w1 of
               (Inl e, w2) \<Rightarrow> (Inl e, w2)
             | (Inr created, w2) \<Rightarrow>
                 if py_truthy created \<and> resource_get_details self then
                   (case subscript created (resource_key_id self) of
                      Inl e \<Rightarrow> (Inl e, w2)
                    | Inr rid \<Rightarrow>
                        (case query rt self rid w2 of
                           (Inl e, w3) \<Rightarrow> (Inl e, w3)
                         | (Inr detailed, w3) \<Rightarrow> get_result self detailed w3))
                 else get_result self created w2)
          else
            (case update rt self resource w1 of
               (Inl e, w2) \<Rightarrow> (Inl e, w2)
             | (Inr updated, w2) \<Rightarrow> get_result self updated w2))"

section \<open>The DNS domain adapter\<close>

text \<open>\<^verbatim>\<open>plugins/modules/dns_domain.py\<close>: the descriptor \<^verbatim>\<open>main\<close> builds, and the dispatch
  on the parameter \<^verbatim>\<open>state\<close>.\<close>

definition dns_domain_vultr :: "ansible_module \<Rightarrow> vultr" where
  "dns_domain_vultr m =
     init_vultr m ''vultr_dns_domain'' ''/domains'' ''domain'' None ''domain'' ''domain'' False
       (Some [''domain'', ''ip'']) (Some [''domain'']) ''PATCH''"

definition main :: "'s runtime \<Rightarrow> ansible_module \<Rightarrow> 's \<Rightarrow> (error + unit) \<times> 's state" where
  "main rt m s =
     (let vultr = dns_domain_vultr m; w = init_state s vultr
      in if py_eq (params_get m ''state'') (VStr ''absent'') then absent rt vultr w
         else present rt vultr w)"

section \<open>Reading a trace\<close>

text \<open>The sleeps, the requests with their answers, and the results handed over, in the
  order of the trace; the events a call added to the trace; the jitter the next
  \<^verbatim>\<open>api_query\<close> call will draw; the answers the transport gives when the same request is
  sent again and again.\<close>

fun slept :: "event list \<Rightarrow> rat list" where
  "slept [] = []"
| "slept (Slept d # es) = d # slept es"
| "slept (e # es) = slept es"

fun fetched :: "event list \<Rightarrow> (request \<times> response) list" where
  "fetched [] = []"
| "fetched (Fetched req resp # es) = (req, resp) # fetched es"
| "fetched (e # es) = fetched es"

fun exited :: "event list \<Rightarrow> result list" where
  "exited [] = []"
| "exited (Exited r # es) = r # exited es"
| "exited (e # es) = exited es"

definition new_events :: "'s state \<Rightarrow> 's state \<Rightarrow> event list" where
  "new_events w w' = drop (length (trace w)) (trace w')"

definition jitter :: "'s runtime \<Rightarrow> 's state \<Rightarrow> rat" where
  "jitter rt w = of_int (fst (randint rt 0 1000 w)) / 1000"

definition too_many :: "request \<times> response \<Rightarrow> bool" where
  "too_many rr = (status (info (snd rr)) = 429)"

fun nth_response :: "'s runtime \<Rightarrow> request \<Rightarrow> 's \<Rightarrow> nat \<Rightarrow> response" where
  "nth_response rt req s 0 = fst (fetch_url rt s req)"
| "nth_response rt req s (Suc n) = nth_response rt req (snd (fetch_url rt s req)) n"

section \<open>The diff predicate as the specification words it\<close>

text \<open>A key of the proposed body differs when its value is not None and, for a list, some
  element is not contained in the field of the current resource, or, for any other value,
  the field is unequal to it. \<open>fields_ready\<close> is the precondition under which every lookup
  \<^verbatim>\<open>is_diff\<close> makes is defined: each key with a value other than None is a field of the
  current resource, and the field supports the membership test for each element of a list
  value.\<close>

definition key_differs :: "(string \<times> val) list \<Rightarrow> string \<times> val \<Rightarrow> bool" where
  "key_differs current kv =
     (case kv of (key, value) \<Rightarrow>
        value \<noteq> VNone \<and>
        (case map_of current key of
           None \<Rightarrow> False
         | Some field \<Rightarrow>
             (case value of
                VList vs \<Rightarrow> list_ex (\<lambda>v. py_in v field = Inr False) vs
              | _ \<Rightarrow> \<not> py_eq field value)))"

definition diff_spec :: "(string \<times> val) list \<Rightarrow> (string \<times> val) list \<Rightarrow> bool" where
  "diff_spec proposed current = list_ex (key_differs current) proposed"

definition field_ready :: "(string \<times> val) list \<Rightarrow> string \<times> val \<Rightarrow> bool" where
  "field_ready current kv =
     (case kv of (key, value) \<Rightarrow>
        value = VNone \<or>
        (case map_of current key of
           None \<Rightarrow> False
         | Some field \<Rightarrow>
             (case value of
                VList vs \<Rightarrow> list_all (\<lambda>v. \<not> isl (py_in v field)) vs
              | _ \<Rightarrow> True)))"

definition fields_ready :: "(string \<times> val) list \<Rightarrow> (string \<times> val) list \<Rightarrow> bool" where
  "fields_ready proposed current = list_all (field_ready current) proposed"

section \<open>Remote sides\<close>

text \<open>A remote API that faithfully stores written fields and does not drift: its state is
  the list of the resources it holds, a POST to the collection stores the body as a new
  resource and answers with it, the update method merges the body into the resource with
  the given id, DELETE drops it, and GET answers from what is stored (the whole list
  under the plural key, one resource under the singular key, 404 for an unknown id).
  Nothing but these requests changes the state.\<close>

datatype target = Collection | Item string | Elsewhere

definition target_of :: "vultr \<Rightarrow> string \<Rightarrow> target" where
  "target_of self u =
     (let base = api_endpoint (module self) @ resource_path self in
      if take (length base) u \<noteq> base then Elsewhere
      else (case drop (length base) u of
              [] \<Rightarrow> Collection
            | c # rid \<Rightarrow> if c = CHR ''/'' then Item rid else Elsewhere))"

definition has_id :: "vultr \<Rightarrow> string \<Rightarrow> (string \<times> val) list \<Rightarrow> bool" where
  "has_id self rid r = (map_of r (resource_key_id self) = Some (VStr rid))"

definition answer :: "int \<Rightarrow> val option \<Rightarrow> response" where
  "answer st b = \<lparr>info = \<lparr>status = st, details = []\<rparr>, body = b\<rparr>"

definition faithful_api ::
  "vultr \<Rightarrow> (string \<times> val) list list \<Rightarrow> request
     \<Rightarrow> response \<times> (string \<times> val) list list" where
  "faithful_api self store req =
     (case target_of self (url req) of
        Elsewhere \<Rightarrow> (answer 400 None, store)
      | Collection \<Rightarrow>
          if meth req = ''GET'' then
            (answer 200 (Some (VDict [(ressource_result_key_plural self,
                                        VList (map VDict store))])), store)
          else if meth req = ''POST'' then
            (case data req of
               VDict d \<Rightarrow>
                 (answer 201 (Some (VDict [(ressource_result_key_singular self, VDict d)])),
                  store @ [d])
             | _ \<Rightarrow> (answer 400 None, store))
          else (answer 405 None, store)
      | Item rid \<Rightarrow>
          (case find (has_id self rid) store of
             None \<Rightarrow> (answer 404 None, store)
           | Some r \<Rightarrow>
               if meth req = ''GET'' then
                 (answer 200 (Some (VDict [(ressource_result_key_singular self, VDict r)])),
                  store)
               else if meth req = ''DELETE'' then
                 (answer 204 None, filter (\<lambda>x. \<not> has_id self rid x) store)
               else if meth req = resource_update_method self then
                 (case data req of
                    VDict d \<Rightarrow>
                      (answer 204 None,
                       map (\<lambda>x. if has_id self rid x then dict_update x d else x) store)
                  | _ \<Rightarrow> (answer 400 None, store))
               else (answer 405 None, store)))"

text \<open>A transport that plays a script: each request takes the next answer of the list,
  whatever it asks, and the given answer once the list is used up.\<close>

definition scripted_fetch :: "response \<Rightarrow> response list \<Rightarrow> request \<Rightarrow> response \<times> response list" where
  "scripted_fetch dflt script req = (case script of [] \<Rightarrow> (dflt, []) | r # rs \<Rightarrow> (r, rs))"

text \<open>Sample inputs: the module of the example task (domain \<^verbatim>\<open>example.com\<close>, server IP
  \<^verbatim>\<open>10.0.0.1\<close>, API settings at their defaults), and runtimes over the two remote sides
  whose \<^verbatim>\<open>randint\<close> always returns the given number.\<close>

definition sample_module :: "bool \<Rightarrow> ansible_module" where
  "sample_module chk =
     vultr_argument_spec ''secret''
       [(''domain'', VStr ''example.com''), (''ip'', VStr ''10.0.0.1''),
        (''state'', VStr ''present'')] chk"

definition scripted_runtime :: "response \<Rightarrow> nat \<Rightarrow> response list runtime" where
  "scripted_runtime dflt r =
     \<lparr>fetch_url = scripted_fetch dflt, entropy = (\<lambda>n. r), py_str = (\<lambda>v. ''None''),
      recursion_limit = 1000\<rparr>"

definition faithful_runtime :: "vultr \<Rightarrow> nat \<Rightarrow> (string \<times> val) list list runtime" where
  "faithful_runtime self r =
     \<lparr>fetch_url = faithful_api self, entropy = (\<lambda>n. r), py_str = (\<lambda>v. ''None''),
      recursion_limit = 1000\<rparr>"

definition sample_vultr :: "bool \<Rightarrow> vultr" where
  "sample_vultr chk = dns_domain_vultr (sample_module chk)"

definition rate_limited_twice :: "response list" where
  "rate_limited_twice =
     [answer 429 None, answer 429 None, answer 200 (Some (VDict [(''domains'', VList [])]))]"

text \<open>The same module with another number of attempts allowed, and a transport script that
  answers 429 to 1025 requests and 200 to the next.\<close>

definition patient_vultr :: "int \<Rightarrow> vultr" where
  "patient_vultr n = dns_domain_vultr ((sample_module False)\<lparr>api_retries := n\<rparr>)"

definition rate_limited_long :: "response list" where
  "rate_limited_long =
     replicate 1025 (answer 429 None) @ [answer 200 (Some (VDict [(''domains'', VList [])]))]"

section \<open>Reading a state\<close>

text \<open>The same engine object in or out of dry-run mode; what a run reports about the
  change it made (the changed flag and the two sides of the diff); a trace part whose
  requests are all reads; and the state after \<^verbatim>\<open>changed\<close> and the diff have been
  recorded.\<close>

definition with_check_mode :: "bool \<Rightarrow> vultr \<Rightarrow> vultr" where
  "with_check_mode c self = self\<lparr>module := (module self)\<lparr>check_mode := c\<rparr>\<rparr>"

definition reported :: "'s state \<Rightarrow> bool \<times> (string \<times> val) list \<times> (string \<times> val) list" where
  "reported w = (changed (result w), diff_before (result w), diff_after (result w))"

definition reads_only :: "event list \<Rightarrow> bool" where
  "reads_only new = list_all (\<lambda>rr. meth (fst rr) = ''GET'') (fetched new)"

definition record_diff ::
  "(string \<times> val) list \<Rightarrow> (string \<times> val) list \<Rightarrow> 's state \<Rightarrow> 's state" where
  "record_diff before after w =
     w\<lparr>result := (result w)\<lparr>changed := True, diff_before := before, diff_after := after\<rparr>\<rparr>"

text \<open>The results an invocation hands over when it starts from a fresh engine object,
  for either desired state.\<close>

definition emitted :: "'s runtime \<Rightarrow> vultr \<Rightarrow> 's \<Rightarrow> result list" where
  "emitted rt self s =
     exited (trace (snd (present rt self (init_state s self))))
       @ exited (trace (snd (absent rt self (init_state s self))))"

text \<open>Two contents of the faithful remote side: the domain of the sample module, and a
  domain with another name.\<close>

definition sample_store :: "(string \<times> val) list list" where
  "sample_store = [[(''domain'', VStr ''example.com''), (''ip'', VStr ''10.0.0.1'')]]"

definition renamed_store :: "(string \<times> val) list list" where
  "renamed_store = [[(''domain'', VStr ''example.org''), (''ip'', VStr ''10.0.0.1'')]]"

section \<open>Conditions for convergence\<close>






section \<open>Auxiliary facts\<close>

lemma any_missing_ready:
  "map_of current key = Some field \<Longrightarrow> list_all (\<lambda>v. \<not> isl (py_in v field)) vs \<Longrightarrow>
   any_missing vs key (VDict current) = Inr (list_ex (\<lambda>v. py_in v field = Inr False) vs)"
proof (induction vs)
  case Nil
  then show ?case by simp
next
  case (Cons v vs)
  then obtain b where b: "py_in v field = Inr b"
    by (cases "py_in v field") auto
  with Cons show ?case by (cases b) auto
qed

lemma is_diff_ready:
  "fields_ready proposed current \<Longrightarrow>
   is_diff proposed (VDict current) = Inr (diff_spec proposed current)"
proof (induction proposed)
  case Nil
  then show ?case by (simp add: diff_spec_def)
next
  case (Cons kv rest)
  obtain key "value" where kv: "kv = (key, value)" by (cases kv)
  from Cons.prems have rest: "fields_ready rest current" and here: "field_ready current (key, value)"
    by (simp_all add: fields_ready_def kv)
  from Cons.IH [OF rest] have IH: "is_diff rest (VDict current) = Inr (diff_spec rest current)" .
  show ?case
  proof (cases "value = VNone")
    case True
    then show ?thesis using IH by (simp add: kv diff_spec_def key_differs_def)
  next
    case False
    with here obtain field where f: "map_of current key = Some field"
      by (auto simp: field_ready_def split: option.splits)
    show ?thesis
    proof (cases "value")
      case (VList vs)
      with here f have "list_all (\<lambda>v. \<not> isl (py_in v field)) vs"
        by (simp add: field_ready_def)
      from any_missing_ready [OF f this] show ?thesis
        using IH VList f by (simp add: kv diff_spec_def key_differs_def)
    qed (use False IH f in \<open>simp_all add: kv diff_spec_def key_differs_def\<close>)
  qed
qed

lemma is_diff_missing:
  "is_diff pre (VDict current) = Inr False \<Longrightarrow> map_of current key = None \<Longrightarrow>
   value \<noteq> VNone \<Longrightarrow> value \<noteq> VList [] \<Longrightarrow>
   is_diff (pre @ (key, value) # rest) (VDict current) = Inl KeyError"
proof (induction pre)
  case Nil
  show ?case
  proof (cases "value")
    case (VList vs)
    with Nil obtain v vs' where "vs = v # vs'" by (cases vs) auto
    with VList Nil show ?thesis by simp
  qed (use Nil in simp_all)
next
  case (Cons kv pre)
  obtain k x where kv: "kv = (k, x)" by (cases kv)
  from Cons.prems(1) have "is_diff pre (VDict current) = Inr False"
    by (cases x) (auto simp: kv split: sum.splits if_splits option.splits)
  from Cons.IH [OF this Cons.prems(2-4)] Cons.prems(1) show ?case
    by (cases x) (auto simp: kv split: sum.splits if_splits option.splits)
qed

lemma slept_append [simp]: "slept (xs @ ys) = slept xs @ slept ys"
  by (induction xs rule: slept.induct) simp_all

lemma fetched_append [simp]: "fetched (xs @ ys) = fetched xs @ fetched ys"
  by (induction xs rule: fetched.induct) simp_all

lemma exited_append [simp]: "exited (xs @ ys) = exited xs @ exited ys"
  by (induction xs rule: exited.induct) simp_all

lemma new_events_append [simp]: "trace w' = trace w @ new \<Longrightarrow> new_events w w' = new"
  by (simp add: new_events_def)


lemma foldl_update_distinct:
  "distinct (map fst acc) \<Longrightarrow>
   distinct (map fst (foldl (\<lambda>dat param. AList.update param (g param) dat) acc ks))"
  by (induction ks arbitrary: acc) (simp_all add: distinct_update)


lemma build_data_distinct: "distinct (map fst (build_data m ks))"
  by (simp add: build_data_def foldl_update_distinct)


text \<open>A body has no key twice, so the update of a dict with a body is the dict overridden
  by the body.\<close>

lemma dict_update_conv:
  "distinct (map fst other) \<Longrightarrow> map_of (dict_update d other) = map_of d ++ map_of other"
proof (induction other arbitrary: d)
  case Nil
  then show ?case by (simp add: dict_update_def)
next
  case (Cons kv other)
  obtain k v where kv: "kv = (k, v)" by (cases kv)
  from Cons.prems have k: "map_of other k = None" and d: "distinct (map fst other)"
    by (auto simp: kv map_of_eq_None_iff)
  have "map_of (dict_update d (kv # other)) = map_of (dict_update (AList.update k v d) other)"
    by (simp add: dict_update_def kv)
  also have "\<dots> = map_of (AList.update k v d) ++ map_of other" by (rule Cons.IH [OF d])
  also have "\<dots> = map_of d ++ map_of (kv # other)"
    using k by (auto simp: fun_eq_iff map_add_def update_conv' kv split: option.splits)
  finally show ?case .
qed

lemma capped_min:
  fixes x m j :: rat
  assumes "x + j > m \<Longrightarrow> m \<le> x"
  shows "0 \<le> j \<Longrightarrow> (if x + j > m then m + j else x + j) = min (x + j) (m + j)"
  using assms by (auto simp: min_def)

text \<open>The powers of two that a float holds, and the delays that come out of
  lines 138 to 140.\<close>

lemma power_below_float: "a \<le> 1023 \<Longrightarrow> (2::int) ^ a < 2 ^ 1024 - 2 ^ 970"
proof -
  assume "a \<le> 1023"
  then have "(2::int) ^ a \<le> 2 ^ 1023" by (simp only: power_increasing one_le_numeral)
  moreover have "(2::int) ^ 970 < 2 ^ 1023" by (rule power_strict_increasing) simp_all
  moreover have "(2::int) ^ 1024 = 2 * 2 ^ 1023" by simp
  ultimately show ?thesis by linarith
qed

lemma too_large_power: "too_large_for_float (2 ^ a) \<longleftrightarrow> 1024 \<le> a"
proof
  assume l: "too_large_for_float (2 ^ a)"
  show "1024 \<le> a"
  proof (rule ccontr)
    assume "\<not> 1024 \<le> a"
    then have "a \<le> 1023" by simp
    from power_below_float [OF this] have "(2::int) ^ a < 2 ^ 1024 - 2 ^ 970" .
    moreover have "\<bar>(2::int) ^ a\<bar> = 2 ^ a" by simp
    moreover from l have "2 ^ 1024 - 2 ^ 970 \<le> \<bar>(2::int) ^ a\<bar>"
      by (simp only: too_large_for_float_def)
    ultimately show False by linarith
  qed
next
  assume "1024 \<le> a"
  then have "(2::int) ^ 1024 \<le> 2 ^ a" by (simp only: power_increasing one_le_numeral)
  moreover have "0 \<le> (2::int) ^ 970" by simp
  ultimately have "(2::int) ^ 1024 - 2 ^ 970 \<le> 2 ^ a" by linarith
  moreover have "\<bar>(2::int) ^ a\<bar> = 2 ^ a" by simp
  ultimately show "too_large_for_float (2 ^ a)"
    by (simp only: too_large_for_float_def)
qed

lemma backoff_delay_Inl: "backoff_delay a j M = Inl e \<Longrightarrow> e = OverflowError"
  by (auto simp: backoff_delay_def Let_def split: if_splits)

lemma cap_below_power:
  assumes "j \<le> 1" "2 ^ a + j > (of_int M :: rat)"
  shows "M \<le> 2 ^ a"
proof -
  from assms have "(of_int M :: rat) < of_int (2 ^ a + 1)" by simp
  then have "M < 2 ^ a + 1" by (simp only: of_int_less_iff)
  then show ?thesis by simp
qed

lemma backoff_delay_Inr:
  assumes "0 \<le> j" "j \<le> 1" "backoff_delay a j M = Inr d"
  shows "a < 1024 \<and> d = min (2 ^ a + j) (of_int M + j)"
proof -
  have "(of_int M :: rat) \<le> 2 ^ a" if "2 ^ a + j > (of_int M :: rat)"
  proof -
    from cap_below_power [OF assms(2) that] have "(of_int M :: rat) \<le> of_int (2 ^ a)"
      by (simp only: of_int_le_iff)
    then show ?thesis by simp
  qed
  from capped_min [of "of_int M" "2 ^ a" j, OF this assms(1)]
  have m: "(if 2 ^ a + j > of_int M then of_int M + j else 2 ^ a + j)
      = min (2 ^ a + j) (of_int M + j)" .
  from assms(3) have a: "a < 1024"
    unfolding backoff_delay_def too_large_power by (simp split: if_splits)
  from assms(3) have "d = (if 2 ^ a + j > of_int M then of_int M + j else 2 ^ a + j)"
    unfolding backoff_delay_def Let_def by (simp split: if_splits)
  with m a show ?thesis by simp
qed

lemma backoff_delay_overflow:
  assumes "j \<le> 1" "backoff_delay a j M = Inl e"
  shows "1024 \<le> a \<or> M < 0"
proof (rule ccontr)
  assume "\<not> (1024 \<le> a \<or> M < 0)"
  then have a: "a \<le> 1023" and M: "0 \<le> M" by simp_all
  from a have na: "\<not> too_large_for_float (2 ^ a)" by (simp add: too_large_power)
  from assms(2) na have gt: "2 ^ a + j > (of_int M :: rat)" and l: "too_large_for_float M"
    unfolding backoff_delay_def Let_def by (simp_all split: if_splits)
  from cap_below_power [OF assms(1) gt] power_below_float [OF a]
  have "M < 2 ^ 1024 - 2 ^ 970" by linarith
  with l M show False by (simp only: too_large_for_float_def abs_of_nonneg)
qed

lemma backoff_delay_ok:
  assumes "0 \<le> j" "j \<le> 1" "0 \<le> M" "a < 1024"
  shows "backoff_delay a j M = Inr (min (2 ^ a + j) (of_int M + j))"
proof (cases "backoff_delay a j M")
  case (Inl e)
  from backoff_delay_overflow [OF assms(2) Inl] assms(3,4) show ?thesis by simp
next
  case (Inr d)
  from backoff_delay_Inr [OF assms(1,2) Inr] Inr show ?thesis by simp
qed

lemma delay_nonneg:
  fixes j :: rat
  assumes "0 \<le> j" "0 \<le> M"
  shows "0 \<le> min (2 ^ a + j) (of_int M + j)"
proof -
  have "(0::rat) \<le> 2 ^ a" by simp
  moreover from assms(2) have "(0::rat) \<le> of_int M" by simp
  ultimately show ?thesis using assms(1) by simp
qed

lemma delay_within_clock:
  fixes j :: rat
  assumes "0 \<le> j" "j \<le> 1" "0 \<le> M" "M \<le> 9223372035"
  shows "\<not> beyond_clock (min (2 ^ a + j) (of_int M + j))"
proof -
  let ?d = "min (2 ^ a + j) (of_int M + j)"
  from assms(4) have "(of_int M :: rat) \<le> of_int 9223372035" by (simp only: of_int_le_iff)
  with assms(2) have "?d \<le> 9223372036" by simp
  then have "?d * 10 ^ 9 \<le> 9223372036 * 10 ^ 9" by (rule mult_right_mono) simp
  then have up: "\<not> 2 ^ 63 \<le> ?d * 10 ^ 9" by simp
  from delay_nonneg [OF assms(1,3), of a] have "0 \<le> ?d * 10 ^ 9"
    by (rule mult_nonneg_nonneg) simp
  moreover have "- (2 ^ 63) < (0::rat)" by simp
  ultimately have "\<not> ?d * 10 ^ 9 < - (2 ^ 63)" by linarith
  with up show ?thesis by (simp only: beyond_clock_def) simp
qed

lemma jitter_range: "0 \<le> jitter rt w \<and> jitter rt w \<le> 1"
proof -
  have "entropy rt (draws w) mod 1001 \<le> 1000"
    using mod_less_divisor [of 1001 "entropy rt (draws w)"] by linarith
  then show ?thesis by (simp add: jitter_def randint_def)
qed

text \<open>One turn of the retry loop: the answer ends the loop, or the delay or the sleep
  raises, or the loop sleeps and goes on.\<close>

lemma fetch_trace:
  "fetch rt req w = (resp, w1) \<Longrightarrow>
   trace w1 = trace w @ [Fetched req resp] \<and> draws w1 = draws w \<and> result w1 = result w
   \<and> resp = fst (fetch_url rt (server w) req) \<and> server w1 = snd (fetch_url rt (server w) req)"
  by (auto simp: fetch_def split: prod.splits)

lemma retry_loop_step:
  assumes "retry_loop rt req j M (a # rs) bound w = (res, w')" "fetch rt req w = (resp, w1)"
  shows "status (info resp) \<noteq> 429 \<and> res = Inr (Some resp) \<and> w' = w1
     \<or> status (info resp) = 429 \<and> w' = w1
       \<and> (res = Inl OverflowError \<and> backoff_delay a j M = Inl OverflowError
          \<or> (\<exists>d. backoff_delay a j M = Inr d
                \<and> (beyond_clock d \<and> res = Inl OverflowError
                   \<or> \<not> beyond_clock d \<and> d < 0 \<and> res = Inl ValueError)))
     \<or> status (info resp) = 429
       \<and> (\<exists>d. backoff_delay a j M = Inr d \<and> 0 \<le> d \<and> \<not> beyond_clock d
             \<and> retry_loop rt req j M rs (Some resp) (w1\<lparr>trace := trace w1 @ [Slept d]\<rparr>)
                 = (res, w'))"
proof (cases "status (info resp) = 429")
  case False
  with assms show ?thesis by simp
next
  case s429: True
  show ?thesis
  proof (cases "backoff_delay a j M")
    case (Inl e)
    from backoff_delay_Inl [OF Inl] have e: "e = OverflowError" .
    from assms s429 Inl show ?thesis by (simp add: e)
  next
    case (Inr d)
    from assms s429 Inr show ?thesis
      by (auto simp: sleep_def split: if_splits)
  qed
qed

text \<open>What one run of the retry loop adds to the trace.\<close>

lemma retry_loop_trace:
  "retry_loop rt req j M rs bound w = (res, w') \<Longrightarrow>
   \<exists>new. trace w' = trace w @ new \<and> draws w' = draws w \<and> result w' = result w
     \<and> list_all2 (\<lambda>a d. backoff_delay a j M = Inr d) (take (length (slept new)) rs) (slept new)
     \<and> length (slept new) \<le> length rs
     \<and> list_all (\<lambda>rr. fst rr = req) (fetched new)
     \<and> exited new = []
     \<and> (res \<noteq> Inl ValueError \<and> res \<noteq> Inl OverflowError
          \<longrightarrow> length (filter too_many (fetched new)) = length (slept new))
     \<and> (res = Inl ValueError \<or> res = Inl OverflowError
          \<longrightarrow> length (filter too_many (fetched new)) = Suc (length (slept new)))"
proof (induction rs arbitrary: bound w)
  case Nil
  then show ?case by auto
next
  case (Cons a rs)
  obtain resp w1 where f: "fetch rt req w = (resp, w1)" by (cases "fetch rt req w")
  from fetch_trace [OF f]
  have w1: "trace w1 = trace w @ [Fetched req resp]" "draws w1 = draws w" "result w1 = result w"
    by simp_all
  from retry_loop_step [OF Cons.prems f]
  consider (answer) "status (info resp) \<noteq> 429" "res = Inr (Some resp)" "w' = w1"
    | (stopped) "status (info resp) = 429" "w' = w1"
        "res = Inl ValueError \<or> res = Inl OverflowError"
    | (again) d where "status (info resp) = 429" "backoff_delay a j M = Inr d"
        "retry_loop rt req j M rs (Some resp) (w1\<lparr>trace := trace w1 @ [Slept d]\<rparr>) = (res, w')"
    by blast
  then show ?case
  proof cases
    case answer
    with w1 show ?thesis by (intro exI [of _ "[Fetched req resp]"]) (simp add: too_many_def)
  next
    case stopped
    with w1 show ?thesis by (intro exI [of _ "[Fetched req resp]"]) (auto simp: too_many_def)
  next
    case again
    define w2 where "w2 = w1\<lparr>trace := trace w1 @ [Slept d]\<rparr>"
    from again(3) have "retry_loop rt req j M rs (Some resp) w2 = (res, w')"
      by (simp add: w2_def)
    from Cons.IH [OF this] obtain new where new:
      "trace w' = trace w2 @ new" "draws w' = draws w2" "result w' = result w2"
      "list_all2 (\<lambda>a d. backoff_delay a j M = Inr d) (take (length (slept new)) rs) (slept new)"
      "length (slept new) \<le> length rs"
      "list_all (\<lambda>rr. fst rr = req) (fetched new)" "exited new = []"
      "res \<noteq> Inl ValueError \<and> res \<noteq> Inl OverflowError
         \<longrightarrow> length (filter too_many (fetched new)) = length (slept new)"
      "res = Inl ValueError \<or> res = Inl OverflowError
         \<longrightarrow> length (filter too_many (fetched new)) = Suc (length (slept new))"
      by blast
    let ?new = "Fetched req resp # Slept d # new"
    have "trace w' = trace w @ ?new" using new(1) w1 by (simp add: w2_def)
    moreover have "list_all2 (\<lambda>a d. backoff_delay a j M = Inr d)
        (take (length (slept ?new)) (a # rs)) (slept ?new)"
      using new(4) again(2) by simp
    moreover have "too_many (req, resp)" using again(1) by (simp add: too_many_def)
    ultimately show ?thesis using new w1
      by (intro exI [of _ ?new]) (simp add: w2_def)
  qed
qed

section \<open>The diff predicate\<close>



text \<open>
  Claim C10, as amended. \<^verbatim>\<open>is_diff\<close> returns a boolean whenever every key with a value
  other than None is a field of the current resource and the fields of list-valued keys
  support membership tests. A key that is reached without an earlier key differing, whose
  value is neither None nor the empty list, and that the remote resource lacks, makes
  \<^verbatim>\<open>resource[key]\<close> raise KeyError instead of counting as different; \<^verbatim>\<open>update\<close> then
  ends with the same error and leaves the state as it was.
\<close>

theorem is_diff_totality:
  "(fields_ready proposed current \<longrightarrow> (\<exists>b. is_diff proposed (VDict current) = Inr b))
   \<and> (is_diff pre (VDict current) = Inr False \<and> map_of current key = None
        \<and> value \<noteq> VNone \<and> value \<noteq> VList []
      \<longrightarrow> is_diff (pre @ (key, value) # rest) (VDict current) = Inl KeyError)
   \<and> (is_diff (build_data (module self) (resource_update_param_keys self)) resource = Inl e
      \<longrightarrow> update rt self resource w = (Inl e, w))"
  by (auto simp: is_diff_ready is_diff_missing update_def Let_def)

theorem is_diff_totality_witness:
  "(\<exists>b. is_diff [(''domain'', VStr ''example.com'')]
           (VDict [(''domain'', VStr ''example.com''), (''ip'', VStr ''10.0.0.1'')]) = Inr b)
   \<and> is_diff [(''domain'', VStr ''example.com'')] (VDict [(''ip'', VStr ''10.0.0.1'')])
       = Inl KeyError
   \<and> update (scripted_runtime (answer 200 None) 0) (dns_domain_vultr (sample_module False))
        (VDict [(''ip'', VStr ''10.0.0.1'')])
        (init_state [] (dns_domain_vultr (sample_module False)))
       = (Inl KeyError, init_state [] (dns_domain_vultr (sample_module False)))"
proof -
  let ?self = "dns_domain_vultr (sample_module False)"
  have dat: "build_data (module ?self) (resource_update_param_keys ?self)
      = [(''domain'', VStr ''example.com'')]"
    by (simp add: build_data_def dns_domain_vultr_def init_vultr_def or_default_def
        sample_module_def vultr_argument_spec_def params_get_def)
  have a: "fields_ready [(''domain'', VStr ''example.com'')]
      [(''domain'', VStr ''example.com''), (''ip'', VStr ''10.0.0.1'')]"
    by (simp add: fields_ready_def field_ready_def)
  have b: "is_diff [] (VDict [(''ip'', VStr ''10.0.0.1'')]) = Inr False
      \<and> map_of [(''ip'', VStr ''10.0.0.1'')] ''domain'' = None
      \<and> VStr ''example.com'' \<noteq> VNone \<and> VStr ''example.com'' \<noteq> VList []"
    by simp
  note t1 = is_diff_totality [of "[(''domain'', VStr ''example.com'')]"
      "[(''domain'', VStr ''example.com''), (''ip'', VStr ''10.0.0.1'')]"
      "[]" "''domain''" "VStr ''example.com''" "[]" ?self "VDict []" KeyError]
  note t2 = is_diff_totality [of "[]" "[(''ip'', VStr ''10.0.0.1'')]"
      "[]" "''domain''" "VStr ''example.com''" "[]" ?self "VDict [(''ip'', VStr ''10.0.0.1'')]"
      KeyError "scripted_runtime (answer 200 None) 0" "init_state [] ?self"]
  from t1 a have c1: "\<exists>b. is_diff [(''domain'', VStr ''example.com'')]
           (VDict [(''domain'', VStr ''example.com''), (''ip'', VStr ''10.0.0.1'')]) = Inr b"
    by blast
  from t2 b have c2: "is_diff [(''domain'', VStr ''example.com'')]
      (VDict [(''ip'', VStr ''10.0.0.1'')]) = Inl KeyError"
    by simp
  from t2 c2 dat have c3: "update (scripted_runtime (answer 200 None) 0) ?self
        (VDict [(''ip'', VStr ''10.0.0.1'')]) (init_state [] ?self)
       = (Inl KeyError, init_state [] ?self)"
    by simp
  from c1 c2 c3 show ?thesis by blast
qed

text \<open>
  The claim as it was stated fails for an empty list: the key \<^verbatim>\<open>tags\<close> has a value other
  than None and is missing from the remote resource, and still no lookup is made and
  \<^verbatim>\<open>is_diff\<close> returns False.
\<close>

theorem is_diff_empty_list_missing_key:
  "map_of [(''name'', VStr ''x'')] ''tags'' = None \<and> VList [] \<noteq> VNone
   \<and> is_diff [(''tags'', VList [])] (VDict [(''name'', VStr ''x'')]) = Inr False"
  by simp

section \<open>The retry loop and the classification of the final response\<close>

lemma fetch_eq:
  "fetch rt req w = (fst (fetch_url rt (server w) req),
     w\<lparr>server := snd (fetch_url rt (server w) req),
       trace := trace w @ [Fetched req (fst (fetch_url rt (server w) req))]\<rparr>)"
  by (simp add: fetch_def split: prod.splits)

text \<open>The three ways of one turn, read off the part of the trace the loop added.\<close>

lemma retry_loop_cases:
  assumes "retry_loop rt req j M (a # rs) bound w = (res, w')" "trace w' = trace w @ new"
  obtains
    (answer) resp where "resp = fst (fetch_url rt (server w) req)" "status (info resp) \<noteq> 429"
      "res = Inr (Some resp)" "new = [Fetched req resp]"
  | (stopped) resp where "resp = fst (fetch_url rt (server w) req)" "status (info resp) = 429"
      "new = [Fetched req resp]"
      "res = Inl OverflowError \<and> backoff_delay a j M = Inl OverflowError
       \<or> (\<exists>d. backoff_delay a j M = Inr d
             \<and> (beyond_clock d \<and> res = Inl OverflowError
                \<or> \<not> beyond_clock d \<and> d < 0 \<and> res = Inl ValueError))"
  | (again) resp d w2 new' where "resp = fst (fetch_url rt (server w) req)"
      "status (info resp) = 429" "backoff_delay a j M = Inr d" "0 \<le> d" "\<not> beyond_clock d"
      "retry_loop rt req j M rs (Some resp) w2 = (res, w')" "trace w' = trace w2 @ new'"
      "new = Fetched req resp # Slept d # new'"
      "server w2 = snd (fetch_url rt (server w) req)"
proof -
  obtain resp w1 where f: "fetch rt req w = (resp, w1)" by (cases "fetch rt req w")
  from fetch_trace [OF f]
  have w1: "trace w1 = trace w @ [Fetched req resp]" "resp = fst (fetch_url rt (server w) req)"
    "server w1 = snd (fetch_url rt (server w) req)"
    by simp_all
  from retry_loop_step [OF assms(1) f]
  consider (a) "status (info resp) \<noteq> 429" "res = Inr (Some resp)" "w' = w1"
    | (b) "status (info resp) = 429" "w' = w1"
        "res = Inl OverflowError \<and> backoff_delay a j M = Inl OverflowError
         \<or> (\<exists>d. backoff_delay a j M = Inr d
               \<and> (beyond_clock d \<and> res = Inl OverflowError
                  \<or> \<not> beyond_clock d \<and> d < 0 \<and> res = Inl ValueError))"
    | (c) d where "status (info resp) = 429" "backoff_delay a j M = Inr d" "0 \<le> d"
        "\<not> beyond_clock d"
        "retry_loop rt req j M rs (Some resp) (w1\<lparr>trace := trace w1 @ [Slept d]\<rparr>) = (res, w')"
    by blast
  then show thesis
  proof cases
    case a
    from a(3) w1(1) assms(2) have "new = [Fetched req resp]" by simp
    from answer [OF w1(2) a(1,2) this] show thesis .
  next
    case b
    from b(2) w1(1) assms(2) have "new = [Fetched req resp]" by simp
    from stopped [OF w1(2) b(1) this b(3)] show thesis .
  next
    case c
    let ?w2 = "w1\<lparr>trace := trace w1 @ [Slept d]\<rparr>"
    from retry_loop_trace [OF c(5)] obtain new' where new': "trace w' = trace ?w2 @ new'"
      by blast
    with w1(1) assms(2) have n: "new = Fetched req resp # Slept d # new'" by simp
    have s: "server ?w2 = snd (fetch_url rt (server w) req)" using w1(3) by simp
    from again [OF w1(2) c(1,2,3,4,5) new' n s] show thesis .
  qed
qed

lemma retry_loop_result:
  "retry_loop rt req j M rs bound w = (res, w') \<Longrightarrow> trace w' = trace w @ new \<Longrightarrow>
   res = Inl ValueError \<or> res = Inl OverflowError
   \<or> res = Inr (if fetched new = [] then bound else Some (snd (last (fetched new))))"
proof (induction rs arbitrary: bound w new)
  case Nil
  then show ?case by auto
next
  case (Cons a rs)
  from Cons.prems show ?case
  proof (cases rule: retry_loop_cases)
    case (answer resp)
    then show ?thesis by simp
  next
    case (stopped resp)
    then show ?thesis by auto
  next
    case (again resp d w2 new')
    from Cons.IH [OF again(6,7)] show ?thesis by (auto simp: again(8))
  qed
qed

lemma retry_loop_butlast:
  "retry_loop rt req j M rs bound w = (res, w') \<Longrightarrow> trace w' = trace w @ new \<Longrightarrow>
   list_all too_many (butlast (fetched new))"
proof (induction rs arbitrary: bound w new)
  case Nil
  then show ?case by auto
next
  case (Cons a rs)
  from Cons.prems show ?case
  proof (cases rule: retry_loop_cases)
    case (answer resp)
    then show ?thesis by simp
  next
    case (stopped resp)
    then show ?thesis by simp
  next
    case (again resp d w2 new')
    have "too_many (req, resp)" using again(2) by (simp add: too_many_def)
    with Cons.IH [OF again(6,7)] show ?thesis by (simp add: again(8))
  qed
qed

lemma retry_loop_fetches:
  assumes "rs \<noteq> []" "retry_loop rt req j M rs bound w = (res, w')" "trace w' = trace w @ new"
  shows "fetched new \<noteq> []"
proof -
  from assms(1) obtain a rs' where rs: "rs = a # rs'" by (cases rs) auto
  from assms(2,3) show ?thesis unfolding rs
    by (cases rule: retry_loop_cases) simp_all
qed

text \<open>With a delay limit that is neither negative nor beyond the clock of \<^verbatim>\<open>time.sleep\<close>,
  a turn with an index below 1024 that is answered with 429 sleeps and goes on.\<close>

lemma delay_accepted:
  assumes "0 \<le> j" "j \<le> 1" "0 \<le> M" "M \<le> 9223372035" "a < 1024"
  shows "backoff_delay a j M = Inr (min (2 ^ a + j) (of_int M + j))
     \<and> \<not> min (2 ^ a + j) (of_int M + j) < 0
     \<and> \<not> beyond_clock (min (2 ^ a + j) (of_int M + j))"
proof -
  from delay_nonneg [OF assms(1,3), of a]
  have "\<not> min (2 ^ a + j) (of_int M + j) < 0" by (simp only: not_less)
  moreover note delay_within_clock [OF assms(1,2,3,4), of a]
  ultimately show ?thesis using backoff_delay_ok [OF assms(1,2,3,5)] by simp
qed

lemma retry_loop_no_error:
  "retry_loop rt req j M rs bound w = (res, w') \<Longrightarrow> trace w' = trace w @ new \<Longrightarrow>
   0 \<le> j \<Longrightarrow> j \<le> 1 \<Longrightarrow> 0 \<le> M \<Longrightarrow> M \<le> 9223372035 \<Longrightarrow> \<forall>a\<in>set rs. a < 1024 \<Longrightarrow>
   res \<noteq> Inl ValueError \<and> res \<noteq> Inl OverflowError"
proof (induction rs arbitrary: bound w new)
  case Nil
  then show ?case by auto
next
  case (Cons a rs)
  from Cons.prems(7) have a: "a < 1024" and rest: "\<forall>a\<in>set rs. a < 1024" by simp_all
  note ok = delay_accepted [OF Cons.prems(3,4,5,6) a]
  from Cons.prems(1,2) show ?case
  proof (cases rule: retry_loop_cases)
    case (answer resp)
    then show ?thesis by simp
  next
    case (stopped resp)
    with ok show ?thesis by auto
  next
    case (again resp d w2 new')
    from Cons.IH [OF again(6,7) Cons.prems(3,4,5,6) rest] show ?thesis .
  qed
qed

lemma retry_loop_count:
  "retry_loop rt req j M rs bound w = (res, w') \<Longrightarrow> trace w' = trace w @ new \<Longrightarrow>
   0 \<le> j \<Longrightarrow> j \<le> 1 \<Longrightarrow> 0 \<le> M \<Longrightarrow> M \<le> 9223372035 \<Longrightarrow> \<forall>a\<in>set (take N rs). a < 1024 \<Longrightarrow>
   \<forall>k<N. status (info (nth_response rt req (server w) k)) = 429 \<Longrightarrow>
   status (info (nth_response rt req (server w) N)) \<noteq> 429 \<Longrightarrow>
   length (fetched new) = min (N + 1) (length rs)
   \<and> (N < length rs \<longrightarrow> res = Inr (Some (nth_response rt req (server w) N)))"
proof (induction rs arbitrary: bound w new N)
  case Nil
  then show ?case by auto
next
  case (Cons a rs)
  show ?case
  proof (cases N)
    case 0
    with Cons.prems(9) have s: "status (info (fst (fetch_url rt (server w) req))) \<noteq> 429"
      by simp
    from Cons.prems(1,2) show ?thesis
    proof (cases rule: retry_loop_cases)
      case (answer resp)
      then show ?thesis by (simp add: 0)
    next
      case (stopped resp)
      with s show ?thesis by simp
    next
      case (again resp d w2 new')
      with s show ?thesis by simp
    qed
  next
    case (Suc N')
    with Cons.prems(8) have s: "status (info (fst (fetch_url rt (server w) req))) = 429"
      by (metis nth_response.simps(1) zero_less_Suc)
    from Cons.prems(7) Suc have a: "a < 1024" and rest: "\<forall>a\<in>set (take N' rs). a < 1024"
      by simp_all
    note ok = delay_accepted [OF Cons.prems(3,4,5,6) a]
    from Cons.prems(1,2) show ?thesis
    proof (cases rule: retry_loop_cases)
      case (answer resp)
      with s show ?thesis by simp
    next
      case (stopped resp)
      with ok show ?thesis by auto
    next
      case (again resp d w2 new')
      have x: "\<forall>k<N'. status (info (nth_response rt req (server w2) k)) = 429"
        using Cons.prems(8) Suc again(9) by auto
      have y: "status (info (nth_response rt req (server w2) N')) \<noteq> 429"
        using Cons.prems(9) Suc again(9) by auto
      from Cons.IH [OF again(6,7) Cons.prems(3,4,5,6) rest x y] show ?thesis
        by (auto simp: again(8,9) Suc)
    qed
  qed
qed

text \<open>The turn with the index 1024 cannot compute its delay: a loop that is answered
  with 429 up to there ends with OverflowError after that request.\<close>

lemma retry_loop_overflow:
  "retry_loop rt req j M [a..<n] bound w = (res, w') \<Longrightarrow> trace w' = trace w @ new \<Longrightarrow>
   0 \<le> j \<Longrightarrow> j \<le> 1 \<Longrightarrow> 0 \<le> M \<Longrightarrow> M \<le> 9223372035 \<Longrightarrow> a \<le> 1024 \<Longrightarrow> 1024 < n \<Longrightarrow>
   \<forall>k\<le>1024 - a. status (info (nth_response rt req (server w) k)) = 429 \<Longrightarrow>
   res = Inl OverflowError \<and> a + length (fetched new) = 1025 \<and> a + length (slept new) = 1024"
proof (induction "1024 - a" arbitrary: a bound w new)
  case 0
  then have a: "a = 1024" by simp
  from 0(2) "0.prems"(8) have run: "retry_loop rt req j M (a # [Suc a..<n]) bound w = (res, w')"
    by (simp add: upt_conv_Cons a)
  from "0.prems"(9) have s: "status (info (fst (fetch_url rt (server w) req))) = 429"
    by (metis le0 nth_response.simps(1))
  from run "0.prems"(2) show ?case
  proof (cases rule: retry_loop_cases)
    case (answer resp)
    with s show ?thesis by simp
  next
    case (stopped resp)
    from stopped(4) backoff_delay_Inr [OF "0.prems"(3,4), of a M] a
    have "res = Inl OverflowError" by auto
    with stopped(3) a show ?thesis by simp
  next
    case (again resp d w2 new')
    from backoff_delay_Inr [OF "0.prems"(3,4) again(3)] a show ?thesis by simp
  qed
next
  case (Suc m)
  then have a: "a < 1024" by simp
  with Suc.prems(8) have run: "retry_loop rt req j M (a # [Suc a..<n]) bound w = (res, w')"
    using Suc.prems(1) by (simp add: upt_conv_Cons)
  from Suc.prems(9) have s: "status (info (fst (fetch_url rt (server w) req))) = 429"
    by (metis le0 nth_response.simps(1))
  note ok = delay_accepted [OF Suc.prems(3,4,5,6) a]
  from run Suc.prems(2) show ?case
  proof (cases rule: retry_loop_cases)
    case (answer resp)
    with s show ?thesis by simp
  next
    case (stopped resp)
    with ok show ?thesis by auto
  next
    case (again resp d w2 new')
    have m: "m = 1024 - Suc a" using Suc(2) by simp
    have le: "Suc a \<le> 1024" using a by simp
    have x: "\<forall>k\<le>1024 - Suc a. status (info (nth_response rt req (server w2) k)) = 429"
    proof (intro allI impI)
      fix k
      assume "k \<le> 1024 - Suc a"
      with a have "Suc k \<le> 1024 - a" by simp
      with Suc.prems(9) have "status (info (nth_response rt req (server w) (Suc k))) = 429"
        by blast
      then show "status (info (nth_response rt req (server w2) k)) = 429"
        by (simp add: again(9))
    qed
    from Suc(1) [OF m again(6,7) Suc.prems(3,4,5,6) le Suc.prems(8) x]
    show ?thesis by (simp add: again(8))
  qed
qed

lemma api_query_unfold:
  "api_query rt self path method dat w = (res, w') \<Longrightarrow>
   \<exists>lres. retry_loop rt (api_request self path method dat) (jitter rt w)
        (api_retry_max_delay (module self)) (py_range (api_retries (module self))) None
        (w\<lparr>draws := Suc (draws w)\<rparr>) = (lres, w')
     \<and> res = (case lres of
          Inl e \<Rightarrow> Inl e
        | Inr None \<Rightarrow> Inl UnboundLocalError
        | Inr (Some resp) \<Rightarrow>
            if status (info resp) = 200 \<or> status (info resp) = 201 then
              (case body resp of None \<Rightarrow> Inl JSONDecodeError | Some v \<Rightarrow> Inr v)
            else if status (info resp) = 404 \<or> status (info resp) = 204 then Inr VNone
            else Inl (FailJson (fail_msg method path) (info resp)))"
  by (auto simp: api_query_def Let_def jitter_def randint_def
      split: prod.splits sum.splits option.splits if_splits)

text \<open>The errors of the loop are errors of the call, and the classification adds neither
  ValueError nor OverflowError.\<close>

lemma classified_error:
  assumes "res = (case lres of
          Inl e \<Rightarrow> Inl e
        | Inr None \<Rightarrow> Inl UnboundLocalError
        | Inr (Some resp) \<Rightarrow>
            if status (info resp) = 200 \<or> status (info resp) = 201 then
              (case body resp of None \<Rightarrow> Inl JSONDecodeError | Some v \<Rightarrow> Inr v)
            else if status (info resp) = 404 \<or> status (info resp) = 204 then Inr VNone
            else Inl (FailJson (fail_msg method path) (info resp)))"
  shows "(res = Inl ValueError \<longleftrightarrow> lres = Inl ValueError)
     \<and> (res = Inl OverflowError \<longleftrightarrow> lres = Inl OverflowError)"
  using assms by (auto split: sum.splits option.splits if_splits)

lemma delays_of_attempts:
  assumes "0 \<le> j" "j \<le> 1"
    and "list_all2 (\<lambda>a d. backoff_delay a j M = Inr d) [0..<k] ds"
  shows "ds = map (\<lambda>a. min (2 ^ a + j) (of_int M + j)) [0..<k] \<and> k \<le> 1024"
proof -
  from assms(3) have len: "length ds = k" by (auto dest: list_all2_lengthD)
  have nth: "i < 1024 \<and> ds ! i = min (2 ^ i + j) (of_int M + j)" if "i < k" for i
  proof -
    from assms(3) that have "backoff_delay ([0..<k] ! i) j M = Inr (ds ! i)"
      by (simp add: list_all2_conv_all_nth)
    with that have "backoff_delay i j M = Inr (ds ! i)" by simp
    from backoff_delay_Inr [OF assms(1,2) this] show ?thesis .
  qed
  have "ds = map (\<lambda>a. min (2 ^ a + j) (of_int M + j)) [0..<k]"
    by (rule nth_equalityI) (simp_all add: len nth)
  moreover have "k \<le> 1024"
  proof (rule ccontr)
    assume "\<not> k \<le> 1024"
    then have "1024 < k" by simp
    from nth [OF this] show False by simp
  qed
  ultimately show ?thesis by simp
qed

lemma api_query_trace:
  assumes "api_query rt self path method dat w = (res, w')"
  shows "\<exists>new. trace w' = trace w @ new \<and> draws w' = Suc (draws w) \<and> result w' = result w
     \<and> slept new = map (\<lambda>a. min (2 ^ a + jitter rt w)
                              (of_int (api_retry_max_delay (module self)) + jitter rt w))
          [0..<length (slept new)]
     \<and> length (slept new) \<le> 1024
     \<and> list_all (\<lambda>rr. fst rr = api_request self path method dat) (fetched new)
     \<and> exited new = []
     \<and> (res \<noteq> Inl ValueError \<and> res \<noteq> Inl OverflowError
          \<longrightarrow> length (filter too_many (fetched new)) = length (slept new))
     \<and> (res = Inl ValueError \<or> res = Inl OverflowError
          \<longrightarrow> length (filter too_many (fetched new)) = Suc (length (slept new)))"
proof -
  from api_query_unfold [OF assms] obtain lres where
    run: "retry_loop rt (api_request self path method dat) (jitter rt w)
        (api_retry_max_delay (module self)) (py_range (api_retries (module self))) None
        (w\<lparr>draws := Suc (draws w)\<rparr>) = (lres, w')"
    and res0: "res = (case lres of
          Inl e \<Rightarrow> Inl e
        | Inr None \<Rightarrow> Inl UnboundLocalError
        | Inr (Some resp) \<Rightarrow>
            if status (info resp) = 200 \<or> status (info resp) = 201 then
              (case body resp of None \<Rightarrow> Inl JSONDecodeError | Some v \<Rightarrow> Inr v)
            else if status (info resp) = 404 \<or> status (info resp) = 204 then Inr VNone
            else Inl (FailJson (fail_msg method path) (info resp)))"
    by blast
  from classified_error [OF res0]
  have res: "res = Inl ValueError \<longleftrightarrow> lres = Inl ValueError"
    "res = Inl OverflowError \<longleftrightarrow> lres = Inl OverflowError"
    by simp_all
  have jr: "0 \<le> jitter rt w" "jitter rt w \<le> 1" using jitter_range [of rt w] by simp_all
  from retry_loop_trace [OF run] obtain new where new:
    "trace w' = trace w @ new" "draws w' = Suc (draws w)" "result w' = result w"
    "list_all2 (\<lambda>a d. backoff_delay a (jitter rt w) (api_retry_max_delay (module self)) = Inr d)
       (take (length (slept new)) (py_range (api_retries (module self)))) (slept new)"
    "length (slept new) \<le> length (py_range (api_retries (module self)))"
    "list_all (\<lambda>rr. fst rr = api_request self path method dat) (fetched new)" "exited new = []"
    "lres \<noteq> Inl ValueError \<and> lres \<noteq> Inl OverflowError
       \<longrightarrow> length (filter too_many (fetched new)) = length (slept new)"
    "lres = Inl ValueError \<or> lres = Inl OverflowError
       \<longrightarrow> length (filter too_many (fetched new)) = Suc (length (slept new))"
    by auto
  from new(5) have "take (length (slept new)) (py_range (api_retries (module self)))
      = [0..<length (slept new)]"
    by (simp add: py_range_def take_upt)
  with new(4) have "list_all2
      (\<lambda>a d. backoff_delay a (jitter rt w) (api_retry_max_delay (module self)) = Inr d)
      [0..<length (slept new)] (slept new)"
    by simp
  from delays_of_attempts [OF jr this]
  have d: "slept new = map (\<lambda>a. min (2 ^ a + jitter rt w)
                              (of_int (api_retry_max_delay (module self)) + jitter rt w))
          [0..<length (slept new)]"
    and l: "length (slept new) \<le> 1024"
    by simp_all
  from new(8,9) have c:
    "res \<noteq> Inl ValueError \<and> res \<noteq> Inl OverflowError
       \<longrightarrow> length (filter too_many (fetched new)) = length (slept new)"
    "res = Inl ValueError \<or> res = Inl OverflowError
       \<longrightarrow> length (filter too_many (fetched new)) = Suc (length (slept new))"
    unfolding res by simp_all
  from new(1,2,3) d l new(6,7) c show ?thesis by (intro exI [of _ new]) blast
qed

lemma sorted_map_upt:
  fixes f :: "nat \<Rightarrow> rat"
  assumes "\<And>a b. a \<le> b \<Longrightarrow> f a \<le> f b"
  shows "sorted (map f [m..<n])"
proof -
  have "sorted_wrt (\<lambda>a b. f a \<le> f b) [m..<n]"
    by (rule sorted_wrt_mono_rel [OF _ sorted_wrt_upt]) (simp add: assms)
  then show ?thesis by (simp add: sorted_map)
qed

lemma delay_mono:
  fixes j m :: rat
  assumes "a \<le> b"
  shows "min (2 ^ a + j) (m + j) \<le> min (2 ^ b + j) (m + j)"
proof -
  have "(2::rat) ^ a + j \<le> 2 ^ b + j" using assms by (simp add: power_increasing)
  then show ?thesis by (rule min.mono) simp
qed

text \<open>The answers of a scripted transport: the script in its order, and the given answer
  to every request when the script is empty.\<close>

lemma nth_response_default: "nth_response (scripted_runtime dflt r) req [] k = dflt"
  by (induction k) (simp_all add: scripted_runtime_def scripted_fetch_def)

lemma nth_response_scripted:
  "k < length script \<Longrightarrow> nth_response (scripted_runtime dflt r) req script k = script ! k"
proof (induction k arbitrary: script)
  case 0
  then show ?case by (cases script) (simp_all add: scripted_runtime_def scripted_fetch_def)
next
  case (Suc k)
  then obtain x rest where s: "script = x # rest" by (cases script) auto
  have "nth_response (scripted_runtime dflt r) req script (Suc k)
      = nth_response (scripted_runtime dflt r) req rest k"
    by (simp add: s scripted_runtime_def scripted_fetch_def)
  with Suc s show ?case by simp
qed




text \<open>
  The retry bound where no delay fails. The settings \<^verbatim>\<open>api_retries\<close> and
  \<^verbatim>\<open>api_retry_max_delay\<close> are a count and a duration, so neither is negative; let the
  delay limit be one that \<^verbatim>\<open>time.sleep\<close> accepts, and let the consecutive 429 or the
  attempts allowed be at most 1024. When the transport answers the request of an
  \<^verbatim>\<open>api_query\<close> call with \<open>N\<close> consecutive 429 and then with another status (a 200, or
  any other), the call issues exactly \<open>min (N + 1) max_retries\<close> requests. Every answer but
  the last is a 429, so an answer with another status is the last one: the loop stops
  right after the request that received it, and when \<open>N < max_retries\<close> the last answer is
  that one. The delays between the requests never decrease from one attempt to the next
  and never exceed \<open>retry_max_delay + jitter\<close>.
\<close>

lemma api_query_retry_bound:
  assumes "api_query rt self path method dat w = (res, w')"
    and "0 \<le> api_retries (module self)"
    and "0 \<le> api_retry_max_delay (module self)"
    and "api_retry_max_delay (module self) \<le> 9223372035"
    and "N \<le> 1024 \<or> api_retries (module self) \<le> 1024"
    and "\<forall>k<N. status (info (nth_response rt (api_request self path method dat) (server w) k)) = 429"
    and "status (info (nth_response rt (api_request self path method dat) (server w) N)) \<noteq> 429"
  shows "int (length (fetched (new_events w w'))) = min (int N + 1) (api_retries (module self))
     \<and> list_all too_many (butlast (fetched (new_events w w')))
     \<and> (int N < api_retries (module self)
          \<longrightarrow> snd (last (fetched (new_events w w')))
              = nth_response rt (api_request self path method dat) (server w) N)
     \<and> sorted (slept (new_events w w'))
     \<and> (\<forall>d\<in>set (slept (new_events w w')).
           d \<le> of_int (api_retry_max_delay (module self)) + jitter rt w)"
proof -
  let ?req = "api_request self path method dat"
  let ?M = "api_retry_max_delay (module self)"
  let ?w0 = "w\<lparr>draws := Suc (draws w)\<rparr>"
  have jr: "0 \<le> jitter rt w" "jitter rt w \<le> 1" using jitter_range [of rt w] by simp_all
  from api_query_trace [OF assms(1)] obtain new where new:
    "trace w' = trace w @ new"
    "slept new = map (\<lambda>a. min (2 ^ a + jitter rt w) (of_int ?M + jitter rt w))
        [0..<length (slept new)]"
    by blast
  from api_query_unfold [OF assms(1)] obtain lres where
    run: "retry_loop rt ?req (jitter rt w) ?M (py_range (api_retries (module self))) None ?w0
      = (lres, w')"
    by blast
  have tr: "trace w' = trace ?w0 @ new" using new(1) by simp
  have ne: "new_events w w' = new" using new(1) by simp
  have low: "\<forall>a\<in>set (take N (py_range (api_retries (module self)))). a < 1024"
  proof
    fix a
    assume "a \<in> set (take N (py_range (api_retries (module self))))"
    then obtain i where "i < length (take N (py_range (api_retries (module self))))"
      and "take N (py_range (api_retries (module self))) ! i = a"
      by (auto simp: in_set_conv_nth)
    then have "a = i" "i < N" "i < nat (api_retries (module self))"
      by (simp_all add: py_range_def)
    with assms(5) show "a < 1024" by auto
  qed
  from retry_loop_count [OF run tr jr assms(3,4) low] assms(6,7)
  have cnt: "length (fetched new) = min (N + 1) (length (py_range (api_retries (module self))))"
    and fin: "N < length (py_range (api_retries (module self)))
      \<longrightarrow> lres = Inr (Some (nth_response rt ?req (server w) N))"
    by simp_all
  from retry_loop_result [OF run tr]
  have lr: "lres = Inl ValueError \<or> lres = Inl OverflowError
     \<or> lres = Inr (if fetched new = [] then None else Some (snd (last (fetched new))))" .
  have len: "int (length (py_range (api_retries (module self)))) = api_retries (module self)"
    using assms(2) by (simp add: py_range_def)
  have c1: "int (length (fetched new)) = min (int N + 1) (api_retries (module self))"
    using cnt len by (simp add: min_def split: if_splits)
  have c3: "int N < api_retries (module self)
      \<longrightarrow> snd (last (fetched new)) = nth_response rt ?req (server w) N"
  proof
    assume "int N < api_retries (module self)"
    with len have n: "N < length (py_range (api_retries (module self)))" by simp
    with fin have l: "lres = Inr (Some (nth_response rt ?req (server w) N))" by simp
    from n cnt have "fetched new \<noteq> []" by auto
    with lr l show "snd (last (fetched new)) = nth_response rt ?req (server w) N" by simp
  qed
  from retry_loop_butlast [OF run tr] have c2: "list_all too_many (butlast (fetched new))" .
  have c4: "sorted (slept new)"
    by (subst new(2)) (rule sorted_map_upt, rule delay_mono)
  have c5: "\<forall>d\<in>set (slept new). d \<le> of_int ?M + jitter rt w"
    by (subst new(2)) auto
  from c1 c2 c3 c4 c5 show ?thesis unfolding ne by simp
qed

lemma api_query_retry_bound_sample:
  "status (info (nth_response (scripted_runtime (answer 500 None) 250)
        (api_request (sample_vultr False) ''/domains'' ''GET'' VNone) rate_limited_twice 0)) = 429
   \<and> status (info (nth_response (scripted_runtime (answer 500 None) 250)
        (api_request (sample_vultr False) ''/domains'' ''GET'' VNone) rate_limited_twice 1)) = 429
   \<and> status (info (nth_response (scripted_runtime (answer 500 None) 250)
        (api_request (sample_vultr False) ''/domains'' ''GET'' VNone) rate_limited_twice 2)) = 200
   \<and> length (fetched (new_events (init_state rate_limited_twice (sample_vultr False))
        (snd (api_query (scripted_runtime (answer 500 None) 250) (sample_vultr False)
               ''/domains'' ''GET'' VNone (init_state rate_limited_twice (sample_vultr False))))))
      = 3
   \<and> sorted (slept (new_events (init_state rate_limited_twice (sample_vultr False))
        (snd (api_query (scripted_runtime (answer 500 None) 250) (sample_vultr False)
               ''/domains'' ''GET'' VNone (init_state rate_limited_twice (sample_vultr False))))))"
proof -
  let ?rt = "scripted_runtime (answer 500 None) 250"
  let ?self = "sample_vultr False"
  let ?w = "init_state rate_limited_twice ?self"
  let ?req = "api_request ?self ''/domains'' ''GET'' VNone"
  let ?run = "api_query ?rt ?self ''/domains'' ''GET'' VNone ?w"
  have run: "?run = (fst ?run, snd ?run)" by simp
  have r: "0 \<le> api_retries (module ?self)" by code_simp
  have m: "0 \<le> api_retry_max_delay (module ?self)" by code_simp
  have m': "api_retry_max_delay (module ?self) \<le> 9223372035" by code_simp
  have b: "(2::nat) \<le> 1024 \<or> api_retries (module ?self) \<le> 1024" by simp
  have sv: "server ?w = rate_limited_twice" by (simp add: init_state_def)
  have k0: "status (info (nth_response ?rt ?req rate_limited_twice 0)) = 429" by code_simp
  have k1: "status (info (nth_response ?rt ?req rate_limited_twice 1)) = 429" by code_simp
  have k2: "status (info (nth_response ?rt ?req rate_limited_twice 2)) = 200" by code_simp
  have lt: "\<forall>k<2. status (info (nth_response ?rt ?req rate_limited_twice k)) = 429"
  proof (intro allI impI)
    fix k :: nat
    assume "k < 2"
    then have "k = 0 \<or> k = 1" by auto
    with k0 k1 show "status (info (nth_response ?rt ?req rate_limited_twice k)) = 429" by auto
  qed
  have ne: "status (info (nth_response ?rt ?req (server ?w) 2)) \<noteq> 429"
    unfolding sv k2 by simp
  have lt': "\<forall>k<2. status (info (nth_response ?rt ?req (server ?w) k)) = 429"
    unfolding sv by (rule lt)
  note t = api_query_retry_bound [OF run r m m' b lt' ne]
  have five: "api_retries (module ?self) = 5" by code_simp
  from t have "int (length (fetched (new_events ?w (snd ?run)))) = 3"
    and "sorted (slept (new_events ?w (snd ?run)))"
    unfolding five by simp_all
  with k0 k1 k2 show ?thesis by simp
qed

text \<open>
  Claim C2. Given \<open>N\<close> consecutive 429 followed by a 200, a call is to issue exactly
  \<open>min (N + 1) max_retries\<close> requests, an answer with another status than 429 ending the
  loop right after its request, with delays that never decrease until they are capped at
  \<open>retry_max_delay + jitter\<close>. The code means to cap the delay, but it computes the power
  \<^verbatim>\<open>2 ** retry\<close> and adds the jitter to it before it compares the sum with the limit. At
  the attempt with the index 1024 that sum is beyond every float: whenever 1025 attempts
  or more are allowed, the delay limit is one that \<^verbatim>\<open>time.sleep\<close> accepts, and the first
  1025 requests are answered with 429, the call ends with OverflowError after 1025
  requests and 1024 sleeps, whatever the transport would answer next. For \<open>N = 1025\<close> and
  1026 attempts allowed the claim has 1026 requests, the last one answered with 200.
\<close>

theorem api_query_overflow:
  assumes "api_query rt self path method dat w = (res, w')"
    and "1025 \<le> api_retries (module self)"
    and "0 \<le> api_retry_max_delay (module self)"
    and "api_retry_max_delay (module self) \<le> 9223372035"
    and "\<forall>k<1025.
           status (info (nth_response rt (api_request self path method dat) (server w) k)) = 429"
  shows "res = Inl OverflowError
     \<and> length (fetched (new_events w w')) = 1025
     \<and> length (slept (new_events w w')) = 1024"
proof -
  let ?req = "api_request self path method dat"
  let ?M = "api_retry_max_delay (module self)"
  let ?w0 = "w\<lparr>draws := Suc (draws w)\<rparr>"
  have jr: "0 \<le> jitter rt w" "jitter rt w \<le> 1" using jitter_range [of rt w] by simp_all
  from api_query_trace [OF assms(1)] obtain new where new: "trace w' = trace w @ new"
    by blast
  from api_query_unfold [OF assms(1)] obtain lres where
    run: "retry_loop rt ?req (jitter rt w) ?M (py_range (api_retries (module self))) None ?w0
      = (lres, w')"
    and res: "res = (case lres of
          Inl e \<Rightarrow> Inl e
        | Inr None \<Rightarrow> Inl UnboundLocalError
        | Inr (Some resp) \<Rightarrow>
            if status (info resp) = 200 \<or> status (info resp) = 201 then
              (case body resp of None \<Rightarrow> Inl JSONDecodeError | Some v \<Rightarrow> Inr v)
            else if status (info resp) = 404 \<or> status (info resp) = 204 then Inr VNone
            else Inl (FailJson (fail_msg method path) (info resp)))"
    by blast
  have tr: "trace w' = trace ?w0 @ new" using new by simp
  have ne: "new_events w w' = new" using new by simp
  from run have run': "retry_loop rt ?req (jitter rt w) ?M [0..<nat (api_retries (module self))]
      None ?w0 = (lres, w')"
    by (simp add: py_range_def)
  have n: "1024 < nat (api_retries (module self))" using assms(2) by simp
  have all: "\<forall>k\<le>1024 - 0. status (info (nth_response rt ?req (server ?w0) k)) = 429"
    using assms(5) by simp
  from retry_loop_overflow [OF run' tr jr assms(3,4) _ n all]
  have "lres = Inl OverflowError" "length (fetched new) = 1025" "length (slept new) = 1024"
    by simp_all
  with res show ?thesis unfolding ne by simp
qed

theorem api_query_overflow_witness:
  "fst (api_query (scripted_runtime (answer 500 None) 250) (patient_vultr 1026)
          ''/domains'' ''GET'' VNone (init_state rate_limited_long (patient_vultr 1026)))
     = Inl OverflowError
   \<and> length (fetched (new_events (init_state rate_limited_long (patient_vultr 1026))
        (snd (api_query (scripted_runtime (answer 500 None) 250) (patient_vultr 1026)
               ''/domains'' ''GET'' VNone (init_state rate_limited_long (patient_vultr 1026))))))
      = 1025
   \<and> status (info (nth_response (scripted_runtime (answer 500 None) 250)
        (api_request (patient_vultr 1026) ''/domains'' ''GET'' VNone) rate_limited_long 1025))
      = 200
   \<and> min (1025 + 1) (api_retries (module (patient_vultr 1026))) = 1026"
proof -
  let ?rt = "scripted_runtime (answer 500 None) 250"
  let ?self = "patient_vultr 1026"
  let ?w = "init_state rate_limited_long ?self"
  let ?req = "api_request ?self ''/domains'' ''GET'' VNone"
  let ?run = "api_query ?rt ?self ''/domains'' ''GET'' VNone ?w"
  have run: "?run = (fst ?run, snd ?run)" by simp
  have r: "api_retries (module ?self) = 1026" by code_simp
  have m: "api_retry_max_delay (module ?self) = 12" by code_simp
  have sv: "server ?w = rate_limited_long" by (simp add: init_state_def)
  have len: "length rate_limited_long = 1026" by (simp add: rate_limited_long_def)
  have busy: "\<forall>k<1025. status (info (nth_response ?rt ?req (server ?w) k)) = 429"
  proof (intro allI impI)
    fix k :: nat
    assume k: "k < 1025"
    with len have "nth_response ?rt ?req rate_limited_long k = rate_limited_long ! k"
      by (intro nth_response_scripted) simp
    also from k have "\<dots> = answer 429 None"
      by (simp add: rate_limited_long_def nth_append)
    finally show "status (info (nth_response ?rt ?req (server ?w) k)) = 429"
      unfolding sv by (simp add: answer_def)
  qed
  have r1: "1025 \<le> api_retries (module ?self)" unfolding r by simp
  have m1: "0 \<le> api_retry_max_delay (module ?self)" unfolding m by simp
  have m2: "api_retry_max_delay (module ?self) \<le> 9223372035" unfolding m by simp
  note t = api_query_overflow [OF run r1 m1 m2 busy]
  from len have "nth_response ?rt ?req rate_limited_long 1025 = rate_limited_long ! 1025"
    by (intro nth_response_scripted) simp
  also have "\<dots> = answer 200 (Some (VDict [(''domains'', VList [])]))"
    by (simp add: rate_limited_long_def nth_append)
  finally have ok: "status (info (nth_response ?rt ?req rate_limited_long 1025)) = 200"
    by (simp add: answer_def)
  from t ok show ?thesis unfolding r by simp
qed

text \<open>
  Claim C3. The final response after the retry loop is to be classified: the status 200
  or 201 returns the JSON-decoded body (a body that is not JSON is fatal), 404 and 204
  alike return the absent marker None, and any other status, a 429 left after the last
  attempt included, fails with the message that names the HTTP method and the path and
  with the \<^verbatim>\<open>info\<close> of the transport. With at least one and at most 1024 attempts allowed
  and a delay limit that \<^verbatim>\<open>time.sleep\<close> accepts (from 0 to 9223372035 seconds), the loop
  of a call always ends with a final response, and whenever a loop does, the call
  classifies it in this way. The other ways a call can end have no final response to
  classify: no attempt was allowed, or the loop was left by an exception, the ValueError
  of \<^verbatim>\<open>time.sleep\<close> for a negative delay or the OverflowError of a delay that could not
  be computed or slept. The code does not keep the claim for a 429 that is left after
  1025 attempts or more: the delay after the attempt with the index 1024 cannot be
  computed, so the call ends with OverflowError after that request, also when it was the
  last one allowed and its 429 was to be reported with the failure message.
\<close>

theorem api_query_classification:
  assumes "api_query rt self path method dat w = (res, w')"
  shows "(0 < api_retries (module self) \<and> api_retries (module self) \<le> 1024
          \<and> 0 \<le> api_retry_max_delay (module self)
          \<and> api_retry_max_delay (module self) \<le> 9223372035
          \<longrightarrow> res \<noteq> Inl ValueError \<and> res \<noteq> Inl OverflowError
              \<and> fetched (new_events w w') \<noteq> [])
     \<and> (res = Inl ValueError \<or> res = Inl OverflowError
        \<or> fetched (new_events w w') = [] \<and> res = Inl UnboundLocalError
        \<or> fetched (new_events w w') \<noteq> []
          \<and> (let final = snd (last (fetched (new_events w w'))); st = status (info final)
             in res =
               (if st = 200 \<or> st = 201
                then (case body final of Some v \<Rightarrow> Inr v | None \<Rightarrow> Inl JSONDecodeError)
                else if st = 404 \<or> st = 204 then Inr VNone
                else Inl (FailJson
                  (''Failure while calling the Vultr API v2 with '' @ method @ '' for ''
                     @ [CHR 0x22] @ path @ [CHR 0x22] @ ''.'')
                  (info final)))))
     \<and> (1025 \<le> api_retries (module self)
          \<and> 0 \<le> api_retry_max_delay (module self)
          \<and> api_retry_max_delay (module self) \<le> 9223372035
          \<and> (\<forall>k<1025. status (info (nth_response rt (api_request self path method dat)
                                      (server w) k)) = 429)
          \<longrightarrow> res = Inl OverflowError \<and> length (fetched (new_events w w')) = 1025)"
proof -
  let ?req = "api_request self path method dat"
  let ?M = "api_retry_max_delay (module self)"
  let ?w0 = "w\<lparr>draws := Suc (draws w)\<rparr>"
  from api_query_trace [OF assms(1)] obtain new where new: "trace w' = trace w @ new"
    by blast
  from api_query_unfold [OF assms(1)] obtain lres where
    run: "retry_loop rt ?req (jitter rt w) ?M (py_range (api_retries (module self))) None ?w0
      = (lres, w')"
    and res: "res = (case lres of
          Inl e \<Rightarrow> Inl e
        | Inr None \<Rightarrow> Inl UnboundLocalError
        | Inr (Some resp) \<Rightarrow>
            if status (info resp) = 200 \<or> status (info resp) = 201 then
              (case body resp of None \<Rightarrow> Inl JSONDecodeError | Some v \<Rightarrow> Inr v)
            else if status (info resp) = 404 \<or> status (info resp) = 204 then Inr VNone
            else Inl (FailJson (fail_msg method path) (info resp)))"
    by blast
  have tr: "trace w' = trace ?w0 @ new" using new by simp
  have ne: "new_events w w' = new" using new by simp
  have jr: "0 \<le> jitter rt w" "jitter rt w \<le> 1" using jitter_range [of rt w] by simp_all
  from classified_error [OF res]
  have err: "res = Inl ValueError \<longleftrightarrow> lres = Inl ValueError"
    "res = Inl OverflowError \<longleftrightarrow> lres = Inl OverflowError"
    by simp_all
  from retry_loop_result [OF run tr]
  have lr: "lres = Inl ValueError \<or> lres = Inl OverflowError
     \<or> lres = Inr (if fetched new = [] then None else Some (snd (last (fetched new))))" .
  have part2: "res = Inl ValueError \<or> res = Inl OverflowError
        \<or> fetched new = [] \<and> res = Inl UnboundLocalError
        \<or> fetched new \<noteq> []
          \<and> (let final = snd (last (fetched new)); st = status (info final)
             in res =
               (if st = 200 \<or> st = 201
                then (case body final of Some v \<Rightarrow> Inr v | None \<Rightarrow> Inl JSONDecodeError)
                else if st = 404 \<or> st = 204 then Inr VNone
                else Inl (FailJson
                  (''Failure while calling the Vultr API v2 with '' @ method @ '' for ''
                     @ [CHR 0x22] @ path @ [CHR 0x22] @ ''.'')
                  (info final))))"
  proof (cases "lres = Inl ValueError \<or> lres = Inl OverflowError")
    case True
    with err show ?thesis by blast
  next
    case False
    with lr have l: "lres = Inr (if fetched new = [] then None else Some (snd (last (fetched new))))"
      by simp
    show ?thesis
    proof (cases "fetched new = []")
      case True
      with l res show ?thesis by simp
    next
      case False
      with l res show ?thesis
        by (cases "body (snd (last (fetched new)))") (simp_all add: fail_msg_def Let_def)
    qed
  qed
  have part1: "res \<noteq> Inl ValueError \<and> res \<noteq> Inl OverflowError \<and> fetched new \<noteq> []"
    if "0 < api_retries (module self)" "api_retries (module self) \<le> 1024"
      "0 \<le> ?M" "?M \<le> 9223372035"
  proof -
    have "py_range (api_retries (module self)) \<noteq> []"
      using that(1) by (simp add: py_range_def)
    from retry_loop_fetches [OF this run tr] have "fetched new \<noteq> []" .
    moreover have "\<forall>a\<in>set (py_range (api_retries (module self))). a < 1024"
      using that(2) by (auto simp: py_range_def)
    from retry_loop_no_error [OF run tr jr that(3,4) this] err
    have "res \<noteq> Inl ValueError \<and> res \<noteq> Inl OverflowError" by simp
    ultimately show ?thesis by simp
  qed
  have part3: "res = Inl OverflowError \<and> length (fetched new) = 1025"
    if "1025 \<le> api_retries (module self)" "0 \<le> ?M" "?M \<le> 9223372035"
      "\<forall>k<1025. status (info (nth_response rt ?req (server w) k)) = 429"
  proof -
    from run have run': "retry_loop rt ?req (jitter rt w) ?M
        [0..<nat (api_retries (module self))] None ?w0 = (lres, w')"
      by (simp add: py_range_def)
    have n: "1024 < nat (api_retries (module self))" using that(1) by simp
    have all: "\<forall>k\<le>1024 - 0. status (info (nth_response rt ?req (server ?w0) k)) = 429"
      using that(4) by simp
    from retry_loop_overflow [OF run' tr jr that(2,3) _ n all]
    have "lres = Inl OverflowError" "length (fetched new) = 1025" by simp_all
    with err show ?thesis by simp
  qed
  from part1 part2 part3 show ?thesis unfolding ne by blast
qed

theorem api_query_classification_witness:
  "fst (api_query (scripted_runtime (answer 500 None) 250) (sample_vultr False)
          ''/domains'' ''GET'' VNone (init_state rate_limited_twice (sample_vultr False)))
     = Inr (VDict [(''domains'', VList [])])
   \<and> fst (api_query (scripted_runtime (answer 500 None) 250) (sample_vultr False)
          ''/domains/example.com'' ''GET'' VNone (init_state [answer 404 None] (sample_vultr False)))
     = Inr VNone
   \<and> fst (api_query (scripted_runtime (answer 500 None) 250) (sample_vultr False)
          ''/domains/example.com'' ''DELETE'' VNone
          (init_state [answer 204 None] (sample_vultr False)))
     = Inr VNone
   \<and> fst (api_query (scripted_runtime (answer 500 None) 250) (sample_vultr False)
          ''/domains'' ''POST'' VNone (init_state [] (sample_vultr False)))
     = Inl (FailJson (''Failure while calling the Vultr API v2 with POST for '' @ [CHR 0x22] @ ''/domains''
               @ [CHR 0x22] @ ''.'')
             \<lparr>status = 500, details = []\<rparr>)
   \<and> fst (api_query (scripted_runtime (answer 429 None) 250) (sample_vultr False)
          ''/domains'' ''GET'' VNone (init_state [] (sample_vultr False)))
     = Inl (FailJson (''Failure while calling the Vultr API v2 with GET for '' @ [CHR 0x22] @ ''/domains''
               @ [CHR 0x22] @ ''.'')
             \<lparr>status = 429, details = []\<rparr>)
   \<and> fst (api_query (scripted_runtime (answer 429 None) 250) (patient_vultr 1025)
          ''/domains'' ''GET'' VNone (init_state [] (patient_vultr 1025)))
     = Inl OverflowError
   \<and> length (fetched (new_events (init_state [] (patient_vultr 1025))
        (snd (api_query (scripted_runtime (answer 429 None) 250) (patient_vultr 1025)
               ''/domains'' ''GET'' VNone (init_state [] (patient_vultr 1025))))))
      = nat (api_retries (module (patient_vultr 1025)))"
proof -
  let ?rt = "scripted_runtime (answer 500 None) 250"
  let ?self = "sample_vultr False"
  let ?w = "init_state rate_limited_twice ?self"
  let ?run = "api_query ?rt ?self ''/domains'' ''GET'' VNone ?w"
  have run: "?run = (fst ?run, snd ?run)" by simp
  have cfg: "0 < api_retries (module ?self) \<and> api_retries (module ?self) \<le> 1024
      \<and> 0 \<le> api_retry_max_delay (module ?self)
      \<and> api_retry_max_delay (module ?self) \<le> 9223372035"
    by code_simp
  note t = api_query_classification [OF run]
  from t cfg have ne: "fetched (new_events ?w (snd ?run)) \<noteq> []"
    and nv: "fst ?run \<noteq> Inl ValueError" and no: "fst ?run \<noteq> Inl OverflowError"
    by simp_all
  have fin: "snd (last (fetched (new_events ?w (snd ?run))))
      = answer 200 (Some (VDict [(''domains'', VList [])]))"
    by code_simp
  from t [THEN conjunct2, THEN conjunct1] ne nv no
  have a: "fst ?run = Inr (VDict [(''domains'', VList [])])"
    unfolding fin by (simp add: answer_def)
  have b: "fst (api_query ?rt ?self ''/domains/example.com'' ''GET'' VNone
      (init_state [answer 404 None] ?self)) = Inr VNone"
    by code_simp
  have c: "fst (api_query ?rt ?self ''/domains/example.com'' ''DELETE'' VNone
      (init_state [answer 204 None] ?self)) = Inr VNone"
    by code_simp
  have d: "fst (api_query ?rt ?self ''/domains'' ''POST'' VNone (init_state [] ?self))
     = Inl (FailJson (''Failure while calling the Vultr API v2 with POST for '' @ [CHR 0x22] @ ''/domains''
               @ [CHR 0x22] @ ''.'')
             \<lparr>status = 500, details = []\<rparr>)"
    by code_simp
  have e: "fst (api_query (scripted_runtime (answer 429 None) 250) ?self ''/domains'' ''GET''
        VNone (init_state [] ?self))
     = Inl (FailJson (''Failure while calling the Vultr API v2 with GET for '' @ [CHR 0x22] @ ''/domains''
               @ [CHR 0x22] @ ''.'')
             \<lparr>status = 429, details = []\<rparr>)"
    by code_simp
  let ?busy = "scripted_runtime (answer 429 None) 250"
  let ?p = "patient_vultr 1025"
  let ?v = "init_state [] ?p"
  let ?long = "api_query ?busy ?p ''/domains'' ''GET'' VNone ?v"
  have long: "?long = (fst ?long, snd ?long)" by simp
  have r: "api_retries (module ?p) = 1025" by code_simp
  have m: "api_retry_max_delay (module ?p) = 12" by code_simp
  have sv: "server ?v = []" by (simp add: init_state_def)
  have hyp: "1025 \<le> api_retries (module ?p) \<and> 0 \<le> api_retry_max_delay (module ?p)
      \<and> api_retry_max_delay (module ?p) \<le> 9223372035
      \<and> (\<forall>k<1025. status (info (nth_response ?busy
             (api_request ?p ''/domains'' ''GET'' VNone) (server ?v) k)) = 429)"
    unfolding r m sv nth_response_default by (simp add: answer_def)
  from api_query_classification [OF long, THEN conjunct2, THEN conjunct2] hyp
  have f: "fst ?long = Inl OverflowError"
    and g: "length (fetched (new_events ?v (snd ?long))) = 1025"
    by blast+
  from a b c d e f g show ?thesis unfolding r by simp
qed

section \<open>What the operations of the reconciler do to the state\<close>

lemma api_query_effects:
  assumes "api_query rt self path method dat w = (res, w')"
  shows "\<exists>new. trace w' = trace w @ new \<and> result w' = result w
     \<and> list_all (\<lambda>rr. fst rr = api_request self path method dat) (fetched new)
     \<and> exited new = []"
  using api_query_trace [OF assms] by blast

lemma api_query_gets:
  assumes "api_query rt self path ''GET'' dat w = (res, w')"
  shows "\<exists>new. trace w' = trace w @ new \<and> result w' = result w
     \<and> list_all (\<lambda>rr. meth (fst rr) = ''GET'') (fetched new) \<and> exited new = []"
proof -
  from api_query_effects [OF assms] obtain new where new:
    "trace w' = trace w @ new" "result w' = result w"
    "list_all (\<lambda>rr. fst rr = api_request self path ''GET'' dat) (fetched new)" "exited new = []"
    by blast
  from new(3) have "list_all (\<lambda>rr. meth (fst rr) = ''GET'') (fetched new)"
    by (simp add: list_all_iff api_request_def)
  with new show ?thesis by blast
qed

lemma query_list_gets:
  assumes "query_list rt self w = (res, w')"
  shows "\<exists>new. trace w' = trace w @ new \<and> result w' = result w
     \<and> list_all (\<lambda>rr. meth (fst rr) = ''GET'') (fetched new) \<and> exited new = []"
proof -
  obtain r w1 where q: "api_query rt self (resource_path self) ''GET'' VNone w = (r, w1)"
    by (cases "api_query rt self (resource_path self) ''GET'' VNone w")
  with assms have "w' = w1"
    by (auto simp: query_list_def split: sum.splits if_splits)
  with api_query_gets [OF q] show ?thesis by simp
qed

lemma query_rec_gets:
  "query_rec rt self depth rid w = (res, w') \<Longrightarrow>
   \<exists>new. trace w' = trace w @ new \<and> result w' = result w
     \<and> list_all (\<lambda>rr. meth (fst rr) = ''GET'') (fetched new) \<and> exited new = []"
proof (induction depth arbitrary: rid w res w')
  case 0
  then show ?case by simp
next
  case (Suc depth)
  show ?case
  proof (cases "rid \<noteq> VNone")
    case True
    show ?thesis
    proof (cases "id_suffix rt rid")
      case (Inl e)
      with True Suc.prems show ?thesis by simp
    next
      case (Inr suffix)
      obtain r w1 where q: "api_query rt self (resource_path self @ suffix) ''GET'' VNone w = (r, w1)"
        by (cases "api_query rt self (resource_path self @ suffix) ''GET'' VNone w")
      with True Inr Suc.prems have "w' = w1"
        by (auto split: sum.splits if_splits)
      with api_query_gets [OF q] show ?thesis by simp
    qed
  next
    case False
    obtain r w1 where q: "query_list rt self w = (r, w1)" by (cases "query_list rt self w")
    from query_list_gets [OF q] obtain new1 where new1:
      "trace w1 = trace w @ new1" "result w1 = result w"
      "list_all (\<lambda>rr. meth (fst rr) = ''GET'') (fetched new1)" "exited new1 = []"
      by blast
    show ?thesis
    proof (cases "\<exists>resources rs resource rid'. r = Inr resources \<and> py_iter resources = Inr rs
        \<and> find_resource rs (resource_key_name self)
             (params_get (module self) (resource_key_name self)) = Inr (Some resource)
        \<and> resource_get_details self \<and> subscript resource (resource_key_id self) = Inr rid'")
      case True
      then obtain resources rs resource rid' where h: "r = Inr resources"
        "py_iter resources = Inr rs"
        "find_resource rs (resource_key_name self)
             (params_get (module self) (resource_key_name self)) = Inr (Some resource)"
        "resource_get_details self" "subscript resource (resource_key_id self) = Inr rid'"
        by blast
      with False q Suc.prems have "query_rec rt self depth rid' w1 = (res, w')" by simp
      from Suc.IH [OF this] obtain new2 where
        "trace w' = trace w1 @ new2" "result w' = result w1"
        "list_all (\<lambda>rr. meth (fst rr) = ''GET'') (fetched new2)" "exited new2 = []"
        by blast
      with new1 show ?thesis by (intro exI [of _ "new1 @ new2"]) simp
    next
      case no: False
      with False q Suc.prems have "w' = w1"
        by (auto split: sum.splits option.splits if_splits)
      with new1 show ?thesis by blast
    qed
  qed
qed

lemma query_gets:
  "query rt self rid w = (res, w') \<Longrightarrow>
   \<exists>new. trace w' = trace w @ new \<and> result w' = result w
     \<and> list_all (\<lambda>rr. meth (fst rr) = ''GET'') (fetched new) \<and> exited new = []"
  unfolding query_def by (rule query_rec_gets)

text \<open>Nothing but \<^verbatim>\<open>create\<close>, \<^verbatim>\<open>update\<close> and \<^verbatim>\<open>absent\<close> reads \<^verbatim>\<open>check_mode\<close>.\<close>

lemma api_query_check_mode:
  "api_query rt (self\<lparr>module := (module self)\<lparr>check_mode := c\<rparr>\<rparr>) = api_query rt self"
  by (intro ext) (simp add: api_query_def api_request_def self_headers_def)

lemma query_list_check_mode:
  "query_list rt (self\<lparr>module := (module self)\<lparr>check_mode := c\<rparr>\<rparr>) = query_list rt self"
  by (intro ext) (simp add: query_list_def api_query_check_mode split: prod.splits sum.splits)

lemma params_get_check_mode: "params_get (m\<lparr>check_mode := c\<rparr>) = params_get m"
  by (intro ext) (simp add: params_get_def)

lemma query_rec_check_mode:
  "query_rec rt (self\<lparr>module := (module self)\<lparr>check_mode := c\<rparr>\<rparr>) depth rid w
     = query_rec rt self depth rid w"
  by (induction depth arbitrary: rid w)
    (simp_all add: api_query_check_mode query_list_check_mode params_get_check_mode
      split: sum.splits option.splits prod.splits)

lemma query_check_mode:
  "query rt (self\<lparr>module := (module self)\<lparr>check_mode := c\<rparr>\<rparr>) = query rt self"
  by (intro ext) (simp add: query_def query_rec_check_mode)

lemma with_check_mode_simps [simp]:
  "check_mode (module (with_check_mode c self)) = c"
  "resource_path (with_check_mode c self) = resource_path self"
  "resource_key_id (with_check_mode c self) = resource_key_id self"
  "resource_key_name (with_check_mode c self) = resource_key_name self"
  "resource_get_details (with_check_mode c self) = resource_get_details self"
  "resource_update_method (with_check_mode c self) = resource_update_method self"
  "resource_create_param_keys (with_check_mode c self) = resource_create_param_keys self"
  "resource_update_param_keys (with_check_mode c self) = resource_update_param_keys self"
  "ressource_result_key_singular (with_check_mode c self) = ressource_result_key_singular self"
  "ressource_result_key_plural (with_check_mode c self) = ressource_result_key_plural self"
  "params_get (module (with_check_mode c self)) = params_get (module self)"
  "api_query rt (with_check_mode c self) = api_query rt self"
  "query rt (with_check_mode c self) = query rt self"
  by (simp_all add: with_check_mode_def params_get_check_mode api_query_check_mode
      query_check_mode)

lemma build_data_check_mode [simp]:
  "build_data (module (with_check_mode c self)) ks = build_data (module self) ks"
  by (simp add: build_data_def)

lemma get_result_eq:
  "get_result self resource w
     = (Inr (), w\<lparr>result := (result w)\<lparr>payload := resource\<rparr>,
                  trace := trace w @ [Exited ((result w)\<lparr>payload := resource\<rparr>)]\<rparr>)"
  by (simp add: get_result_def Let_def)

lemma create_dry:
  "create rt (with_check_mode True self) w
     = (Inr (VDict []),
        w\<lparr>result := (result w)\<lparr>changed := True, diff_before := [],
              diff_after := build_data (module self) (resource_create_param_keys self)\<rparr>\<rparr>)"
  by (simp add: create_def Let_def)

lemma create_reported:
  "reported (snd (create rt self w))
     = (True, [], build_data (module self) (resource_create_param_keys self))"
proof (cases "check_mode (module self)")
  case True
  then show ?thesis by (simp add: create_def Let_def reported_def)
next
  case False
  let ?w1 = "w\<lparr>result := (result w)\<lparr>changed := True, diff_before := [],
              diff_after := build_data (module self) (resource_create_param_keys self)\<rparr>\<rparr>"
  obtain r w2 where q: "api_query rt self (resource_path self) ''POST''
      (VDict (build_data (module self) (resource_create_param_keys self))) ?w1 = (r, w2)"
    by (cases "api_query rt self (resource_path self) ''POST''
      (VDict (build_data (module self) (resource_create_param_keys self))) ?w1")
  from api_query_effects [OF q] have "result w2 = result ?w1" by blast
  moreover from q False have "snd (create rt self w) = w2"
    by (auto simp: create_def Let_def split: sum.splits)
  ultimately show ?thesis by (simp add: reported_def)
qed

lemma create_effects:
  "create rt self w = (res, w') \<Longrightarrow>
   \<exists>new. trace w' = trace w @ new \<and> exited new = []
     \<and> vultr_api (result w') = vultr_api (result w)
     \<and> (check_mode (module self) \<longrightarrow> new = [])"
proof (cases "check_mode (module self)")
  case True
  assume "create rt self w = (res, w')"
  with True show ?thesis by (auto simp: create_def Let_def)
next
  case False
  assume c: "create rt self w = (res, w')"
  let ?w1 = "w\<lparr>result := (result w)\<lparr>changed := True, diff_before := [],
              diff_after := build_data (module self) (resource_create_param_keys self)\<rparr>\<rparr>"
  obtain r w2 where q: "api_query rt self (resource_path self) ''POST''
      (VDict (build_data (module self) (resource_create_param_keys self))) ?w1 = (r, w2)"
    by (cases "api_query rt self (resource_path self) ''POST''
      (VDict (build_data (module self) (resource_create_param_keys self))) ?w1")
  from q False c have "w' = w2"
    by (auto simp: create_def Let_def split: sum.splits if_splits)
  with api_query_effects [OF q] False show ?thesis by auto
qed

lemma record_diff_simps [simp]:
  "trace (record_diff b a w) = trace w" "server (record_diff b a w) = server w"
  "draws (record_diff b a w) = draws w"
  "changed (result (record_diff b a w)) = True"
  "diff_before (result (record_diff b a w)) = b"
  "diff_after (result (record_diff b a w)) = a"
  "vultr_api (result (record_diff b a w)) = vultr_api (result w)"
  "payload (result (record_diff b a w)) = payload (result w)"
  by (simp_all add: record_diff_def)

lemma any_missing_True_dict: "any_missing vs key resource = Inr True \<Longrightarrow> \<exists>d. resource = VDict d"
  by (induction vs) (auto split: sum.splits if_splits elim: subscript.elims)

lemma is_diff_True_dict: "is_diff dat resource = Inr True \<Longrightarrow> \<exists>d. resource = VDict d"
proof (induction dat)
  case Nil
  then show ?case by simp
next
  case (Cons kv dat)
  obtain k v where kv: "kv = (k, v)" by (cases kv)
  show ?case
  proof (cases "is_diff dat resource = Inr True")
    case True
    with Cons.IH show ?thesis by simp
  next
    case False
    with Cons.prems show ?thesis
      by (cases v; cases resource)
        (auto simp: kv split: sum.splits if_splits dest: any_missing_True_dict)
  qed
qed

lemma update_no_diff:
  "is_diff (build_data (module self) (resource_update_param_keys self)) resource = Inr False \<Longrightarrow>
   update rt self resource w = (Inr resource, w)"
  by (simp add: update_def Let_def)

lemma update_error:
  "is_diff (build_data (module self) (resource_update_param_keys self)) resource = Inl e \<Longrightarrow>
   update rt self resource w = (Inl e, w)"
  by (simp add: update_def Let_def)

lemma update_diff:
  assumes "is_diff (build_data (module self) (resource_update_param_keys self)) (VDict snapshot)
      = Inr True"
  shows "update rt self (VDict snapshot) w =
    (let dat = build_data (module self) (resource_update_param_keys self);
         w2 = record_diff snapshot (dict_update snapshot dat) w
     in if check_mode (module self) then (Inr (VDict snapshot), w2)
        else (case subscript (VDict snapshot) (resource_key_id self) of
                Inl e \<Rightarrow> (Inl e, w2)
              | Inr rid \<Rightarrow>
                  (case api_query rt self (resource_path self @ ''/'' @ format_s rt rid)
                          (resource_update_method self) (VDict dat) w2 of
                     (Inl e, w3) \<Rightarrow> (Inl e, w3)
                   | (Inr written, w3) \<Rightarrow> query rt self rid w3)))"
  using assms by (simp add: update_def Let_def record_diff_def split: sum.splits option.splits)

lemma update_effects:
  assumes "update rt self resource w = (res, w')"
  shows "\<exists>new. trace w' = trace w @ new \<and> exited new = []
     \<and> vultr_api (result w') = vultr_api (result w)
     \<and> (check_mode (module self) \<longrightarrow> new = [])"
proof (cases "is_diff (build_data (module self) (resource_update_param_keys self)) resource")
  case (Inl e)
  from update_error [OF this, of rt w] assms show ?thesis by simp
next
  case (Inr b)
  show ?thesis
  proof (cases b)
    case False
    with Inr update_no_diff [of self resource rt w] assms show ?thesis by simp
  next
    case True
    with Inr have dt: "is_diff (build_data (module self) (resource_update_param_keys self))
        resource = Inr True"
      by simp
    from is_diff_True_dict [OF this] obtain snapshot where s: "resource = VDict snapshot"
      by blast
    let ?dat = "build_data (module self) (resource_update_param_keys self)"
    let ?w2 = "record_diff snapshot (dict_update snapshot ?dat) w"
    note u = update_diff [OF dt [unfolded s], of rt w]
    show ?thesis
    proof (cases "check_mode (module self)")
      case True
      with u assms s show ?thesis by (auto simp: Let_def)
    next
      case live: False
      show ?thesis
      proof (cases "subscript (VDict snapshot) (resource_key_id self)")
        case (Inl e)
        with u assms s live show ?thesis by (auto simp: Let_def)
      next
        case (Inr rid)
        obtain r w3 where q: "api_query rt self (resource_path self @ ''/'' @ format_s rt rid)
            (resource_update_method self) (VDict ?dat) ?w2 = (r, w3)"
          by (cases "api_query rt self (resource_path self @ ''/'' @ format_s rt rid)
            (resource_update_method self) (VDict ?dat) ?w2")
        from api_query_effects [OF q] obtain new1 where new1:
          "trace w3 = trace w @ new1" "result w3 = result ?w2" "exited new1 = []"
          by auto
        show ?thesis
        proof (cases r)
          case (Inl e)
          with u assms s live Inr q have "w' = w3" by (simp add: Let_def)
          with new1 live show ?thesis by simp
        next
          case written: (Inr v)
          with u assms s live Inr q have "query rt self rid w3 = (res, w')" by (simp add: Let_def)
          from query_gets [OF this] obtain new2 where
            "trace w' = trace w3 @ new2" "result w' = result w3" "exited new2 = []"
            by blast
          with new1 live show ?thesis by (intro exI [of _ "new1 @ new2"]) simp
        qed
      qed
    qed
  qed
qed

lemma update_reported:
  "reported (snd (update rt (with_check_mode True self) resource w))
     = reported (snd (update rt (with_check_mode False self) resource w))"
proof (cases "is_diff (build_data (module self) (resource_update_param_keys self)) resource")
  case (Inl e)
  then show ?thesis by (simp add: update_def Let_def)
next
  case (Inr b)
  show ?thesis
  proof (cases b)
    case False
    with Inr show ?thesis by (simp add: update_def Let_def)
  next
    case True
    with Inr have dt: "is_diff (build_data (module self) (resource_update_param_keys self))
        resource = Inr True"
      by simp
    from is_diff_True_dict [OF this] obtain snapshot where s: "resource = VDict snapshot"
      by blast
    let ?dat = "build_data (module self) (resource_update_param_keys self)"
    let ?w2 = "record_diff snapshot (dict_update snapshot ?dat) w"
    from dt s have d: "\<And>c. is_diff (build_data (module (with_check_mode c self))
        (resource_update_param_keys (with_check_mode c self))) (VDict snapshot) = Inr True"
      by simp
    have dry: "snd (update rt (with_check_mode True self) resource w) = ?w2"
      unfolding s update_diff [OF d] by (simp add: Let_def)
    have "result (snd (update rt (with_check_mode False self) resource w)) = result ?w2"
    proof (cases "subscript (VDict snapshot) (resource_key_id self)")
      case (Inl e)
      then show ?thesis unfolding s update_diff [OF d] by (simp add: Let_def)
    next
      case (Inr rid)
      obtain r w3 where q: "api_query rt self (resource_path self @ ''/'' @ format_s rt rid)
          (resource_update_method self) (VDict ?dat) ?w2 = (r, w3)"
        by (cases "api_query rt self (resource_path self @ ''/'' @ format_s rt rid)
          (resource_update_method self) (VDict ?dat) ?w2")
      from api_query_effects [OF q] have r3: "result w3 = result ?w2" by auto
      show ?thesis
      proof (cases r)
        case (Inl e)
        with Inr q r3 show ?thesis unfolding s update_diff [OF d] by (simp add: Let_def)
      next
        case written: (Inr v)
        obtain r4 w4 where q4: "query rt self rid w3 = (r4, w4)"
          by (cases "query rt self rid w3")
        from query_gets [OF q4] have "result w4 = result w3" by blast
        with written Inr q q4 r3 show ?thesis
          unfolding s update_diff [OF d] by (simp add: Let_def)
      qed
    qed
    with dry show ?thesis by (simp add: reported_def)
  qed
qed

lemma api_query_fetches:
  assumes "0 < api_retries (module self)" "api_query rt self path method dat w = (res, w')"
    "trace w' = trace w @ new"
  shows "fetched new \<noteq> []"
proof -
  from api_query_unfold [OF assms(2)] obtain lres where
    run: "retry_loop rt (api_request self path method dat) (jitter rt w)
        (api_retry_max_delay (module self)) (py_range (api_retries (module self))) None
        (w\<lparr>draws := Suc (draws w)\<rparr>) = (lres, w')"
    by blast
  have ne: "py_range (api_retries (module self)) \<noteq> []"
    using assms(1) by (simp add: py_range_def)
  have tr: "trace w' = trace (w\<lparr>draws := Suc (draws w)\<rparr>) @ new" using assms(3) by simp
  from retry_loop_fetches [OF ne run tr] show ?thesis .
qed

lemma absent_eq:
  "absent rt self w =
     (case query rt self VNone w of
        (Inl e, w1) \<Rightarrow> (Inl e, w1)
      | (Inr resource, w1) \<Rightarrow>
          if py_truthy resource then
            (case dict_copy resource of
               Inl e \<Rightarrow> (Inl e, w1\<lparr>result := (result w1)\<lparr>changed := True\<rparr>\<rparr>)
             | Inr snapshot \<Rightarrow>
                 if check_mode (module self)
                 then get_result self resource (record_diff snapshot [] w1)
                 else (case subscript resource (resource_key_id self) of
                         Inl e \<Rightarrow> (Inl e, record_diff snapshot [] w1)
                       | Inr rid \<Rightarrow>
                           (case api_query rt self (resource_path self @ ''/'' @ format_s rt rid)
                                   ''DELETE'' VNone (record_diff snapshot [] w1) of
                              (Inl e, w4) \<Rightarrow> (Inl e, w4)
                            | (Inr deleted, w4) \<Rightarrow> get_result self resource w4)))
          else get_result self resource w1)"
  by (simp add: absent_def Let_def record_diff_def split: prod.splits sum.splits)

text \<open>What \<^verbatim>\<open>absent\<close> leaves behind, whatever happens.\<close>

lemma absent_effects:
  assumes "absent rt self w = (res, w')"
  shows "\<exists>new. trace w' = trace w @ new
     \<and> vultr_api (result w') = vultr_api (result w)
     \<and> (check_mode (module self) \<longrightarrow> reads_only new)
     \<and> exited new = (if res = Inr () then [result w'] else [])"
proof -
  obtain qres w1 where q: "query rt self VNone w = (qres, w1)"
    by (cases "query rt self VNone w")
  from query_gets [OF q] obtain new1 where new1:
    "trace w1 = trace w @ new1" "result w1 = result w"
    "list_all (\<lambda>rr. meth (fst rr) = ''GET'') (fetched new1)" "exited new1 = []"
    by blast
  note a = assms [unfolded absent_eq q, simplified]
  show ?thesis
  proof (cases qres)
    case (Inl e)
    with a new1 show ?thesis by (auto simp: reads_only_def)
  next
    case (Inr resource)
    show ?thesis
    proof (cases "py_truthy resource")
      case False
      with a Inr new1 show ?thesis
        by (intro exI [of _ "new1 @ [Exited (result w')]"])
          (auto simp: get_result_eq reads_only_def)
    next
      case truthy: True
      show ?thesis
      proof (cases "dict_copy resource")
        case (Inl e)
        with a Inr truthy new1 show ?thesis by (auto simp: reads_only_def)
      next
        case copy: (Inr snapshot)
        let ?w3 = "record_diff snapshot [] w1"
        show ?thesis
        proof (cases "check_mode (module self)")
          case True
          with a Inr truthy copy new1 show ?thesis
            by (intro exI [of _ "new1 @ [Exited (result w')]"])
              (auto simp: get_result_eq reads_only_def)
        next
          case live: False
          show ?thesis
          proof (cases "subscript resource (resource_key_id self)")
            case (Inl e)
            with a Inr truthy copy live new1 show ?thesis by auto
          next
            case rid: (Inr rid)
            obtain r w4 where d: "api_query rt self (resource_path self @ ''/'' @ format_s rt rid)
                ''DELETE'' VNone ?w3 = (r, w4)"
              by (cases "api_query rt self (resource_path self @ ''/'' @ format_s rt rid)
                ''DELETE'' VNone ?w3")
            from api_query_effects [OF d] obtain new2 where new2:
              "trace w4 = trace w1 @ new2" "result w4 = result ?w3" "exited new2 = []"
              by auto
            show ?thesis
            proof (cases r)
              case (Inl e)
              with a Inr truthy copy live rid d new1 new2 show ?thesis
                by (intro exI [of _ "new1 @ new2"]) auto
            next
              case deleted: (Inr v)
              with a Inr truthy copy live rid d new1 new2 show ?thesis
                by (intro exI [of _ "new1 @ new2 @ [Exited (result w')]"])
                  (auto simp: get_result_eq)
            qed
          qed
        qed
      qed
    qed
  qed
qed

lemma absent_reported:
  "reported (snd (absent rt (with_check_mode True self) w))
     = reported (snd (absent rt (with_check_mode False self) w))"
proof -
  obtain qres w1 where q: "query rt self VNone w = (qres, w1)"
    by (cases "query rt self VNone w")
  show ?thesis
  proof (cases qres)
    case (Inl e)
    with q show ?thesis by (simp add: absent_eq)
  next
    case (Inr resource)
    show ?thesis
    proof (cases "py_truthy resource")
      case False
      with q Inr show ?thesis by (simp add: absent_eq get_result_eq reported_def)
    next
      case truthy: True
      show ?thesis
      proof (cases "dict_copy resource")
        case (Inl e)
        with q Inr truthy show ?thesis by (simp add: absent_eq)
      next
        case copy: (Inr snapshot)
        let ?w3 = "record_diff snapshot [] w1"
        have dry: "reported (snd (absent rt (with_check_mode True self) w)) = reported ?w3"
          using q Inr truthy copy by (simp add: absent_eq get_result_eq reported_def)
        have "reported (snd (absent rt (with_check_mode False self) w)) = reported ?w3"
        proof (cases "subscript resource (resource_key_id self)")
          case (Inl e)
          with q Inr truthy copy show ?thesis by (simp add: absent_eq)
        next
          case rid: (Inr rid)
          obtain r w4 where d: "api_query rt self (resource_path self @ ''/'' @ format_s rt rid)
              ''DELETE'' VNone ?w3 = (r, w4)"
            by (cases "api_query rt self (resource_path self @ ''/'' @ format_s rt rid)
              ''DELETE'' VNone ?w3")
          from api_query_effects [OF d] have "result w4 = result ?w3" by auto
          with q Inr truthy copy rid d show ?thesis
            by (cases r) (simp_all add: absent_eq get_result_eq reported_def)
        qed
        with dry show ?thesis by simp
      qed
    qed
  qed
qed

lemma present_effects:
  assumes "present rt self w = (res, w')"
  shows "\<exists>new. trace w' = trace w @ new
     \<and> vultr_api (result w') = vultr_api (result w)
     \<and> (check_mode (module self) \<longrightarrow> reads_only new)
     \<and> exited new = (if res = Inr () then [result w'] else [])"
proof -
  obtain qres w1 where q: "query rt self VNone w = (qres, w1)"
    by (cases "query rt self VNone w")
  from query_gets [OF q] obtain new1 where new1:
    "trace w1 = trace w @ new1" "result w1 = result w"
    "reads_only new1" "exited new1 = []"
    unfolding reads_only_def by blast
  note a = assms [unfolded present_def q, simplified]
  show ?thesis
  proof (cases qres)
    case (Inl e)
    with a new1 show ?thesis by auto
  next
    case (Inr resource)
    show ?thesis
    proof (cases "py_truthy resource")
      case False
      obtain cres w2 where c: "create rt self w1 = (cres, w2)" by (cases "create rt self w1")
      from create_effects [OF c] obtain new2 where new2:
        "trace w2 = trace w1 @ new2" "exited new2 = []"
        "vultr_api (result w2) = vultr_api (result w1)"
        "check_mode (module self) \<longrightarrow> new2 = []"
        by blast
      then have ro2: "check_mode (module self) \<longrightarrow> reads_only new2"
        by (auto simp: reads_only_def)
      show ?thesis
      proof (cases cres)
        case (Inl e)
        with a Inr False c new1 new2 ro2 show ?thesis
          by (intro exI [of _ "new1 @ new2"]) (auto simp: reads_only_def)
      next
        case created: (Inr created)
        show ?thesis
        proof (cases "py_truthy created \<and> resource_get_details self")
          case False
          with a Inr \<open>\<not> py_truthy resource\<close> c created new1 new2 ro2 show ?thesis
            by (intro exI [of _ "new1 @ new2 @ [Exited (result w')]"])
              (auto simp: get_result_eq reads_only_def)
        next
          case details: True
          show ?thesis
          proof (cases "subscript created (resource_key_id self)")
            case (Inl e)
            with a Inr \<open>\<not> py_truthy resource\<close> c created details new1 new2 ro2 show ?thesis
              by (intro exI [of _ "new1 @ new2"]) (auto simp: reads_only_def)
          next
            case rid: (Inr rid)
            obtain r3 w3 where q3: "query rt self rid w2 = (r3, w3)"
              by (cases "query rt self rid w2")
            from query_gets [OF q3] obtain new3 where new3:
              "trace w3 = trace w2 @ new3" "result w3 = result w2"
              "reads_only new3" "exited new3 = []"
              unfolding reads_only_def by blast
            show ?thesis
            proof (cases r3)
              case (Inl e)
              with a Inr \<open>\<not> py_truthy resource\<close> c created details rid q3 new1 new2 new3 ro2
              show ?thesis
                by (intro exI [of _ "new1 @ new2 @ new3"]) (auto simp: reads_only_def)
            next
              case detailed: (Inr detailed)
              with a Inr \<open>\<not> py_truthy resource\<close> c created details rid q3 new1 new2 new3 ro2
              show ?thesis
                by (intro exI [of _ "new1 @ new2 @ new3 @ [Exited (result w')]"])
                  (auto simp: get_result_eq reads_only_def)
            qed
          qed
        qed
      qed
    next
      case truthy: True
      obtain ures w2 where u: "update rt self resource w1 = (ures, w2)"
        by (cases "update rt self resource w1")
      from update_effects [OF u] obtain new2 where new2:
        "trace w2 = trace w1 @ new2" "exited new2 = []"
        "vultr_api (result w2) = vultr_api (result w1)"
        "check_mode (module self) \<longrightarrow> new2 = []"
        by blast
      show ?thesis
      proof (cases ures)
        case (Inl e)
        with a Inr truthy u new1 new2 show ?thesis
          by (intro exI [of _ "new1 @ new2"]) (auto simp: reads_only_def)
      next
        case updated: (Inr updated)
        with a Inr truthy u new1 new2 show ?thesis
          by (intro exI [of _ "new1 @ new2 @ [Exited (result w')]"])
            (auto simp: get_result_eq reads_only_def)
      qed
    qed
  qed
qed

lemma api_query_sent:
  assumes "api_query rt self path method dat w = (res, w')"
  shows "list_all (\<lambda>rr. url (fst rr) = api_endpoint (module self) @ path
            \<and> meth (fst rr) = method \<and> data (fst rr) = dat) (fetched (new_events w w'))
     \<and> (0 < api_retries (module self) \<longrightarrow> fetched (new_events w w') \<noteq> [])
     \<and> exited (new_events w w') = [] \<and> result w' = result w"
proof -
  from api_query_effects [OF assms] obtain new where new:
    "trace w' = trace w @ new" "result w' = result w"
    "list_all (\<lambda>rr. fst rr = api_request self path method dat) (fetched new)" "exited new = []"
    by blast
  have ne: "new_events w w' = new" using new(1) by simp
  from new(3) have "list_all (\<lambda>rr. url (fst rr) = api_endpoint (module self) @ path
            \<and> meth (fst rr) = method \<and> data (fst rr) = dat) (fetched new)"
    by (simp add: list_all_iff api_request_def)
  moreover have "0 < api_retries (module self) \<longrightarrow> fetched new \<noteq> []"
    using api_query_fetches [OF _ assms new(1)] by blast
  ultimately show ?thesis using new unfolding ne by simp
qed

section \<open>Dry-run mode\<close>

text \<open>
  Claim C5. In dry-run mode \<^verbatim>\<open>create\<close> and \<^verbatim>\<open>update\<close> issue no request at all, and
  every request of \<^verbatim>\<open>absent\<close> (and of \<^verbatim>\<open>present\<close>) is a GET: no POST, PATCH, PUT or
  DELETE reaches the transport. The changed flag and both sides of the diff are the same
  as those of the invocation that starts from the same state with dry-run switched off.
\<close>

theorem dry_run_issues_no_write:
  "new_events w (snd (create rt (with_check_mode True self) w)) = []
   \<and> new_events w (snd (update rt (with_check_mode True self) resource w)) = []
   \<and> reads_only (new_events w (snd (absent rt (with_check_mode True self) w)))
   \<and> reads_only (new_events w (snd (present rt (with_check_mode True self) w)))
   \<and> reported (snd (create rt (with_check_mode True self) w))
       = reported (snd (create rt (with_check_mode False self) w))
   \<and> reported (snd (update rt (with_check_mode True self) resource w))
       = reported (snd (update rt (with_check_mode False self) resource w))
   \<and> reported (snd (absent rt (with_check_mode True self) w))
       = reported (snd (absent rt (with_check_mode False self) w))"
proof -
  let ?dry = "with_check_mode True self"
  have c: "new_events w (snd (create rt ?dry w)) = []"
    by (simp add: create_dry new_events_def)
  obtain ures uw where u: "update rt ?dry resource w = (ures, uw)"
    by (cases "update rt ?dry resource w")
  from update_effects [OF u] have "trace uw = trace w @ []" by auto
  with u have u': "new_events w (snd (update rt ?dry resource w)) = []" by simp
  obtain ares aw where a: "absent rt ?dry w = (ares, aw)" by (cases "absent rt ?dry w")
  from absent_effects [OF a] obtain anew where "trace aw = trace w @ anew" "reads_only anew"
    by auto
  with a have a': "reads_only (new_events w (snd (absent rt ?dry w)))" by simp
  obtain pres pw where p: "present rt ?dry w = (pres, pw)" by (cases "present rt ?dry w")
  from present_effects [OF p] obtain pnew where "trace pw = trace w @ pnew" "reads_only pnew"
    by auto
  with p have p': "reads_only (new_events w (snd (present rt ?dry w)))" by simp
  from c u' a' p' show ?thesis
    by (simp add: create_reported update_reported absent_reported)
qed

theorem dry_run_issues_no_write_witness:
  "new_events (init_state sample_store (sample_vultr False))
      (snd (create (faithful_runtime (sample_vultr False) 0)
              (with_check_mode True (sample_vultr False))
              (init_state sample_store (sample_vultr False)))) = []
   \<and> new_events (init_state renamed_store (sample_vultr False))
      (snd (update (faithful_runtime (sample_vultr False) 0)
              (with_check_mode True (sample_vultr False)) (VDict (hd renamed_store))
              (init_state renamed_store (sample_vultr False)))) = []
   \<and> map (\<lambda>rr. meth (fst rr))
        (fetched (new_events (init_state sample_store (sample_vultr False))
           (snd (absent (faithful_runtime (sample_vultr False) 0)
                   (with_check_mode True (sample_vultr False))
                   (init_state sample_store (sample_vultr False)))))) = [''GET'']
   \<and> map (\<lambda>rr. meth (fst rr))
        (fetched (new_events (init_state sample_store (sample_vultr False))
           (snd (absent (faithful_runtime (sample_vultr False) 0)
                   (with_check_mode False (sample_vultr False))
                   (init_state sample_store (sample_vultr False)))))) = [''GET'', ''DELETE'']
   \<and> reported (snd (absent (faithful_runtime (sample_vultr False) 0)
                   (with_check_mode True (sample_vultr False))
                   (init_state sample_store (sample_vultr False))))
       = (True, [(''domain'', VStr ''example.com''), (''ip'', VStr ''10.0.0.1'')], [])
   \<and> reported (snd (absent (faithful_runtime (sample_vultr False) 0)
                   (with_check_mode False (sample_vultr False))
                   (init_state sample_store (sample_vultr False))))
       = (True, [(''domain'', VStr ''example.com''), (''ip'', VStr ''10.0.0.1'')], [])"
proof -
  let ?rt = "faithful_runtime (sample_vultr False) 0"
  let ?self = "sample_vultr False"
  let ?w = "init_state sample_store ?self"
  note t = dry_run_issues_no_write [of ?w ?rt ?self "VDict (hd sample_store)"]
  note t' = dry_run_issues_no_write [of "init_state renamed_store ?self" ?rt ?self
      "VDict (hd renamed_store)"]
  have a: "map (\<lambda>rr. meth (fst rr))
        (fetched (new_events ?w (snd (absent ?rt (with_check_mode True ?self) ?w)))) = [''GET'']"
    by code_simp
  have b: "map (\<lambda>rr. meth (fst rr))
        (fetched (new_events ?w (snd (absent ?rt (with_check_mode False ?self) ?w))))
      = [''GET'', ''DELETE'']"
    by code_simp
  have c: "reported (snd (absent ?rt (with_check_mode True ?self) ?w))
       = (True, [(''domain'', VStr ''example.com''), (''ip'', VStr ''10.0.0.1'')], [])"
    by code_simp
  from t t' a b c show ?thesis by simp
qed

section \<open>Update\<close>

text \<open>
  Claim C6. When \<^verbatim>\<open>is_diff\<close> does not hold, \<^verbatim>\<open>update\<close> returns the resource as it
  is and leaves the state as it was: the changed flag keeps its prior value and nothing
  is sent. When it holds, the resource is a dict, the changed flag is set, the before
  side of the diff is the current snapshot and the after side is the snapshot merged with
  the update body. In dry-run nothing is sent and the resource is returned. Otherwise
  every request of the write goes with the update method and the body to
  \<^verbatim>\<open>resource_path + "/" + resource[id_key]\<close> (at least one when an attempt is allowed);
  a failed write ends the call with its error, and after a successful write the value
  returned is what the re-query by id returns, whatever the write answered.
\<close>

theorem update_behaviour:
  assumes "update rt self resource w = (res, w')"
  shows
    "(is_diff (build_data (module self) (resource_update_param_keys self)) resource = Inr False
        \<longrightarrow> res = Inr resource \<and> w' = w)
     \<and> (is_diff (build_data (module self) (resource_update_param_keys self)) resource = Inr True
        \<longrightarrow> (\<exists>snapshot. resource = VDict snapshot
              \<and> changed (result w')
              \<and> diff_before (result w') = snapshot
              \<and> diff_after (result w')
                  = dict_update snapshot (build_data (module self) (resource_update_param_keys self))
              \<and> map_of (diff_after (result w'))
                  = map_of snapshot
                      ++ map_of (build_data (module self) (resource_update_param_keys self))
              \<and> (check_mode (module self) \<longrightarrow> res = Inr resource \<and> new_events w w' = [])
              \<and> (\<forall>rid. \<not> check_mode (module self)
                    \<and> subscript resource (resource_key_id self) = Inr rid
                  \<longrightarrow> (let body = build_data (module self) (resource_update_param_keys self);
                           before = record_diff snapshot (dict_update snapshot body) w;
                           write = api_query rt self (resource_path self @ ''/'' @ format_s rt rid)
                                     (resource_update_method self) (VDict body) before;
                           sent = fetched (new_events w (snd write))
                       in list_all (\<lambda>rr. url (fst rr) = api_endpoint (module self)
                                             @ resource_path self @ ''/'' @ format_s rt rid
                                    \<and> meth (fst rr) = resource_update_method self
                                    \<and> data (fst rr) = VDict body) sent
                          \<and> (0 < api_retries (module self) \<longrightarrow> sent \<noteq> [])
                          \<and> (res, w') = (case fst write of
                                           Inl e \<Rightarrow> (Inl e, snd write)
                                         | Inr written \<Rightarrow> query rt self rid (snd write))))))"
proof -
  let ?dat = "build_data (module self) (resource_update_param_keys self)"
  have no: "res = Inr resource \<and> w' = w" if "is_diff ?dat resource = Inr False"
    using update_no_diff [OF that, of rt w] assms by simp
  have yes: "\<exists>snapshot. resource = VDict snapshot
              \<and> changed (result w')
              \<and> diff_before (result w') = snapshot
              \<and> diff_after (result w') = dict_update snapshot ?dat
              \<and> map_of (diff_after (result w')) = map_of snapshot ++ map_of ?dat
              \<and> (check_mode (module self) \<longrightarrow> res = Inr resource \<and> new_events w w' = [])
              \<and> (\<forall>rid. \<not> check_mode (module self)
                    \<and> subscript resource (resource_key_id self) = Inr rid
                  \<longrightarrow> (let body = ?dat;
                           before = record_diff snapshot (dict_update snapshot body) w;
                           write = api_query rt self (resource_path self @ ''/'' @ format_s rt rid)
                                     (resource_update_method self) (VDict body) before;
                           sent = fetched (new_events w (snd write))
                       in list_all (\<lambda>rr. url (fst rr) = api_endpoint (module self)
                                             @ resource_path self @ ''/'' @ format_s rt rid
                                    \<and> meth (fst rr) = resource_update_method self
                                    \<and> data (fst rr) = VDict body) sent
                          \<and> (0 < api_retries (module self) \<longrightarrow> sent \<noteq> [])
                          \<and> (res, w') = (case fst write of
                                           Inl e \<Rightarrow> (Inl e, snd write)
                                         | Inr written \<Rightarrow> query rt self rid (snd write))))"
    if dt: "is_diff ?dat resource = Inr True"
  proof -
    from is_diff_True_dict [OF dt] obtain snapshot where s: "resource = VDict snapshot" by blast
    let ?w2 = "record_diff snapshot (dict_update snapshot ?dat) w"
    note a = assms [unfolded s update_diff [OF dt [unfolded s]] Let_def]
    have dry: "res = Inr resource \<and> new_events w w' = [] \<and> result w' = result ?w2"
      if "check_mode (module self)"
    proof -
      from a that have "(Inr (VDict snapshot), ?w2) = (res, w')" by simp
      then have "res = Inr (VDict snapshot)" "w' = ?w2" by simp_all
      then show ?thesis by (simp add: s new_events_def)
    qed
    have live: "(let write = api_query rt self (resource_path self @ ''/'' @ format_s rt rid)
                                     (resource_update_method self) (VDict ?dat) ?w2;
                           sent = fetched (new_events w (snd write))
                       in list_all (\<lambda>rr. url (fst rr) = api_endpoint (module self)
                                             @ resource_path self @ ''/'' @ format_s rt rid
                                    \<and> meth (fst rr) = resource_update_method self
                                    \<and> data (fst rr) = VDict ?dat) sent
                          \<and> (0 < api_retries (module self) \<longrightarrow> sent \<noteq> [])
                          \<and> (res, w') = (case fst write of
                                           Inl e \<Rightarrow> (Inl e, snd write)
                                         | Inr written \<Rightarrow> query rt self rid (snd write)))
         \<and> result w' = result ?w2"
      if l: "\<not> check_mode (module self)" and rid: "subscript resource (resource_key_id self) = Inr rid"
      for rid
    proof -
      obtain r w3 where q: "api_query rt self (resource_path self @ ''/'' @ format_s rt rid)
            (resource_update_method self) (VDict ?dat) ?w2 = (r, w3)"
        by (cases "api_query rt self (resource_path self @ ''/'' @ format_s rt rid)
            (resource_update_method self) (VDict ?dat) ?w2")
      have nw: "new_events w w3 = new_events ?w2 w3" by (simp add: new_events_def)
      note sent = api_query_sent [OF q, folded nw]
      from a l rid [unfolded s] q
      have eq: "(res, w') = (case r of Inl e \<Rightarrow> (Inl e, w3)
                              | Inr written \<Rightarrow> query rt self rid w3)"
        by simp
      have "result w' = result ?w2"
      proof (cases r)
        case (Inl e)
        with eq sent show ?thesis by simp
      next
        case (Inr written)
        with eq have "query rt self rid w3 = (res, w')" by simp
        from query_gets [OF this] sent show ?thesis by auto
      qed
      moreover have "fst (r, w3) = r" "snd (r, w3) = w3" by simp_all
      ultimately show ?thesis using sent eq unfolding Let_def q by (cases r) simp_all
    qed
    have res2: "result w' = result ?w2"
    proof (cases "check_mode (module self)")
      case True
      with dry show ?thesis by simp
    next
      case False
      show ?thesis
      proof (cases "subscript resource (resource_key_id self)")
        case (Inl e)
        with a False have "(Inl e, ?w2) = (res, w')" by (simp add: s)
        then have "w' = ?w2" by simp
        then show ?thesis by simp
      next
        case (Inr rid)
        from live [OF False this] show ?thesis by simp
      qed
    qed
    have m: "map_of (dict_update snapshot ?dat) = map_of snapshot ++ map_of ?dat"
      by (rule dict_update_conv [OF build_data_distinct])
    show ?thesis
    proof (rule exI [of _ snapshot], intro conjI)
      show "resource = VDict snapshot" by (rule s)
      show "changed (result w')" "diff_before (result w') = snapshot"
        "diff_after (result w') = dict_update snapshot ?dat"
        unfolding res2 by simp_all
      show "map_of (diff_after (result w')) = map_of snapshot ++ map_of ?dat"
        unfolding res2 using m by simp
      show "check_mode (module self) \<longrightarrow> res = Inr resource \<and> new_events w w' = []"
        using dry by blast
      show "\<forall>rid. \<not> check_mode (module self)
                    \<and> subscript resource (resource_key_id self) = Inr rid
                  \<longrightarrow> (let body = ?dat;
                           before = record_diff snapshot (dict_update snapshot body) w;
                           write = api_query rt self (resource_path self @ ''/'' @ format_s rt rid)
                                     (resource_update_method self) (VDict body) before;
                           sent = fetched (new_events w (snd write))
                       in list_all (\<lambda>rr. url (fst rr) = api_endpoint (module self)
                                             @ resource_path self @ ''/'' @ format_s rt rid
                                    \<and> meth (fst rr) = resource_update_method self
                                    \<and> data (fst rr) = VDict body) sent
                          \<and> (0 < api_retries (module self) \<longrightarrow> sent \<noteq> [])
                          \<and> (res, w') = (case fst write of
                                           Inl e \<Rightarrow> (Inl e, snd write)
                                         | Inr written \<Rightarrow> query rt self rid (snd write)))"
      proof (intro allI impI)
        fix rid
        assume "\<not> check_mode (module self)
                    \<and> subscript resource (resource_key_id self) = Inr rid"
        then have "\<not> check_mode (module self)"
          "subscript resource (resource_key_id self) = Inr rid" by simp_all
        from live [OF this] show "let body = ?dat;
                           before = record_diff snapshot (dict_update snapshot body) w;
                           write = api_query rt self (resource_path self @ ''/'' @ format_s rt rid)
                                     (resource_update_method self) (VDict body) before;
                           sent = fetched (new_events w (snd write))
                       in list_all (\<lambda>rr. url (fst rr) = api_endpoint (module self)
                                             @ resource_path self @ ''/'' @ format_s rt rid
                                    \<and> meth (fst rr) = resource_update_method self
                                    \<and> data (fst rr) = VDict body) sent
                          \<and> (0 < api_retries (module self) \<longrightarrow> sent \<noteq> [])
                          \<and> (res, w') = (case fst write of
                                           Inl e \<Rightarrow> (Inl e, snd write)
                                         | Inr written \<Rightarrow> query rt self rid (snd write))"
          unfolding Let_def by (rule conjunct1)
      qed
    qed
  qed
  show ?thesis by (rule conjI; rule impI) (rule no, assumption, rule yes, assumption)
qed

theorem update_behaviour_witness:
  "is_diff (build_data (module (sample_vultr False))
      (resource_update_param_keys (sample_vultr False))) (VDict (hd renamed_store)) = Inr True
   \<and> changed (result (snd (update (faithful_runtime (sample_vultr False) 0) (sample_vultr False)
        (VDict (hd renamed_store)) (init_state renamed_store (sample_vultr False)))))
   \<and> diff_before (result (snd (update (faithful_runtime (sample_vultr False) 0)
        (sample_vultr False) (VDict (hd renamed_store))
        (init_state renamed_store (sample_vultr False)))))
       = [(''domain'', VStr ''example.org''), (''ip'', VStr ''10.0.0.1'')]
   \<and> diff_after (result (snd (update (faithful_runtime (sample_vultr False) 0)
        (sample_vultr False) (VDict (hd renamed_store))
        (init_state renamed_store (sample_vultr False)))))
       = [(''domain'', VStr ''example.com''), (''ip'', VStr ''10.0.0.1'')]
   \<and> map (\<lambda>rr. (meth (fst rr), url (fst rr)))
        (fetched (trace (snd (update (faithful_runtime (sample_vultr False) 0)
          (sample_vultr False) (VDict (hd renamed_store))
          (init_state renamed_store (sample_vultr False))))))
       = [(''PATCH'', ''https://api.vultr.com/v2/domains/example.org''),
          (''GET'', ''https://api.vultr.com/v2/domains/example.org'')]
   \<and> is_diff (build_data (module (sample_vultr False))
      (resource_update_param_keys (sample_vultr False)))
        (VDict [(''domain'', VStr ''example.com''), (''ip'', VStr ''10.0.0.1''),
                (''id'', VStr ''x'')]) = Inr False
   \<and> update (faithful_runtime (sample_vultr False) 0) (sample_vultr False)
        (VDict [(''domain'', VStr ''example.com''), (''ip'', VStr ''10.0.0.1''),
                (''id'', VStr ''x'')]) (init_state sample_store (sample_vultr False))
       = (Inr (VDict [(''domain'', VStr ''example.com''), (''ip'', VStr ''10.0.0.1''),
                (''id'', VStr ''x'')]), init_state sample_store (sample_vultr False))"
proof -
  let ?rt = "faithful_runtime (sample_vultr False) 0"
  let ?self = "sample_vultr False"
  let ?w = "init_state renamed_store ?self"
  let ?dat = "build_data (module ?self) (resource_update_param_keys ?self)"
  let ?run = "update ?rt ?self (VDict (hd renamed_store)) ?w"
  let ?same = "VDict [(''domain'', VStr ''example.com''), (''ip'', VStr ''10.0.0.1''),
                (''id'', VStr ''x'')]"
  let ?run2 = "update ?rt ?self ?same (init_state sample_store ?self)"
  have run: "?run = (fst ?run, snd ?run)" by simp
  have run2: "?run2 = (fst ?run2, snd ?run2)" by simp
  have d: "is_diff ?dat (VDict (hd renamed_store)) = Inr True" by code_simp
  have d2: "is_diff ?dat ?same = Inr False" by code_simp
  from update_behaviour [OF run] d obtain snapshot where s:
    "VDict (hd renamed_store) = VDict snapshot" "changed (result (snd ?run))"
    "diff_before (result (snd ?run)) = snapshot"
    "diff_after (result (snd ?run)) = dict_update snapshot ?dat"
    by blast
  from s(1) have sn: "snapshot = [(''domain'', VStr ''example.org''), (''ip'', VStr ''10.0.0.1'')]"
    by (simp add: renamed_store_def)
  have mg: "dict_update [(''domain'', VStr ''example.org''), (''ip'', VStr ''10.0.0.1'')] ?dat
      = [(''domain'', VStr ''example.com''), (''ip'', VStr ''10.0.0.1'')]"
    by code_simp
  have f: "map (\<lambda>rr. (meth (fst rr), url (fst rr))) (fetched (trace (snd ?run)))
       = [(''PATCH'', ''https://api.vultr.com/v2/domains/example.org''),
          (''GET'', ''https://api.vultr.com/v2/domains/example.org'')]"
    by code_simp
  from update_behaviour [OF run2] d2 have "fst ?run2 = Inr ?same"
    "snd ?run2 = init_state sample_store ?self"
    by simp_all
  then have u2: "?run2 = (Inr ?same, init_state sample_store ?self)"
    by (metis run2)
  from d d2 s(2-4) f u2 show ?thesis unfolding sn mg by simp
qed

section \<open>Absent\<close>

text \<open>
  Claim C7. Take a call of \<^verbatim>\<open>absent\<close> whose query returns. When the queried resource
  does not exist (the query result is empty), the call hands over one result, on which
  the changed flag has its prior value, False for a fresh engine object, and the payload
  is the empty query result, and it sends nothing after the query. When the resource
  exists, the changed flag is set, the before side of the diff is the full prior snapshot
  and the after side is empty; in dry-run the result is handed over with nothing sent,
  otherwise every request after the query is a DELETE to
  \<^verbatim>\<open>resource_path + "/" + resource[id_key]\<close> (at least one when an attempt is allowed),
  and unless the deletion fails the result is handed over after it. In every case the
  result is handed over exactly once when the call returns, and never when it ends with
  an error.
\<close>

theorem absent_behaviour:
  assumes "query rt self VNone w = (Inr resource, w1)" and "absent rt self w = (res, w')"
  shows
    "(\<not> py_truthy resource
        \<longrightarrow> res = Inr () \<and> new_events w1 w' = [Exited (result w')]
            \<and> result w' = (result w)\<lparr>payload := resource\<rparr>)
     \<and> (py_truthy resource \<longrightarrow> changed (result w'))
     \<and> (\<forall>snapshot. py_truthy resource \<and> resource = VDict snapshot
          \<longrightarrow> diff_before (result w') = snapshot \<and> diff_after (result w') = []
              \<and> (check_mode (module self)
                    \<longrightarrow> res = Inr () \<and> new_events w1 w' = [Exited (result w')]
                        \<and> payload (result w') = resource)
              \<and> (\<forall>rid. \<not> check_mode (module self)
                      \<and> subscript resource (resource_key_id self) = Inr rid
                    \<longrightarrow> (let deletion = api_query rt self
                                 (resource_path self @ ''/'' @ format_s rt rid) ''DELETE'' VNone
                                 (record_diff snapshot [] w1);
                             sent = fetched (new_events w1 (snd deletion))
                         in list_all (\<lambda>rr. url (fst rr) = api_endpoint (module self)
                                               @ resource_path self @ ''/'' @ format_s rt rid
                                      \<and> meth (fst rr) = ''DELETE'') sent
                            \<and> (0 < api_retries (module self) \<longrightarrow> sent \<noteq> [])
                            \<and> (case fst deletion of
                                  Inl e \<Rightarrow> res = Inl e \<and> w' = snd deletion
                                | Inr deleted \<Rightarrow>
                                    res = Inr ()
                                    \<and> new_events w1 w'
                                        = new_events w1 (snd deletion) @ [Exited (result w')]
                                    \<and> payload (result w') = resource))))
     \<and> exited (new_events w w') = (if res = Inr () then [result w'] else [])
     \<and> \<not> changed (result (init_state s self))"
proof -
  from query_gets [OF assms(1)] have r1: "result w1 = result w" by blast
  note a = assms(2) [unfolded absent_eq assms(1), simplified]
  have A: "res = Inr () \<and> new_events w1 w' = [Exited (result w')]
            \<and> result w' = (result w)\<lparr>payload := resource\<rparr>" if "\<not> py_truthy resource"
  proof -
    from a that have "get_result self resource w1 = (res, w')" by simp
    then have "res = Inr ()"
      "w' = w1\<lparr>result := (result w1)\<lparr>payload := resource\<rparr>,
                  trace := trace w1 @ [Exited ((result w1)\<lparr>payload := resource\<rparr>)]\<rparr>"
      by (simp_all add: get_result_eq)
    then show ?thesis using r1 by (simp add: new_events_def)
  qed
  have C: "diff_before (result w') = snapshot \<and> diff_after (result w') = []
        \<and> changed (result w')
        \<and> (check_mode (module self)
              \<longrightarrow> res = Inr () \<and> new_events w1 w' = [Exited (result w')]
                  \<and> payload (result w') = resource)
        \<and> (\<forall>rid. \<not> check_mode (module self)
                \<and> subscript resource (resource_key_id self) = Inr rid
              \<longrightarrow> (let deletion = api_query rt self
                           (resource_path self @ ''/'' @ format_s rt rid) ''DELETE'' VNone
                           (record_diff snapshot [] w1);
                       sent = fetched (new_events w1 (snd deletion))
                   in list_all (\<lambda>rr. url (fst rr) = api_endpoint (module self)
                                         @ resource_path self @ ''/'' @ format_s rt rid
                                \<and> meth (fst rr) = ''DELETE'') sent
                      \<and> (0 < api_retries (module self) \<longrightarrow> sent \<noteq> [])
                      \<and> (case fst deletion of
                            Inl e \<Rightarrow> res = Inl e \<and> w' = snd deletion
                          | Inr deleted \<Rightarrow>
                              res = Inr ()
                              \<and> new_events w1 w'
                                  = new_events w1 (snd deletion) @ [Exited (result w')]
                              \<and> payload (result w') = resource)))"
    if t: "py_truthy resource" and s: "resource = VDict snapshot" for snapshot
  proof -
    let ?w3 = "record_diff snapshot [] w1"
    from a t s have b: "(if check_mode (module self)
                 then get_result self resource ?w3
                 else (case subscript resource (resource_key_id self) of
                         Inl e \<Rightarrow> (Inl e, ?w3)
                       | Inr rid \<Rightarrow>
                           (case api_query rt self (resource_path self @ ''/'' @ format_s rt rid)
                                   ''DELETE'' VNone ?w3 of
                              (Inl e, w4) \<Rightarrow> (Inl e, w4)
                            | (Inr deleted, w4) \<Rightarrow> get_result self resource w4))) = (res, w')"
      by simp
    have dry: "res = Inr () \<and> new_events w1 w' = [Exited (result w')]
        \<and> payload (result w') = resource \<and> reported w' = reported ?w3"
      if "check_mode (module self)"
    proof -
      from b that have "get_result self resource ?w3 = (res, w')" by simp
      then have "res = Inr ()"
        "w' = ?w3\<lparr>result := (result ?w3)\<lparr>payload := resource\<rparr>,
                  trace := trace ?w3 @ [Exited ((result ?w3)\<lparr>payload := resource\<rparr>)]\<rparr>"
        by (simp_all add: get_result_eq)
      then show ?thesis by (simp add: new_events_def reported_def)
    qed
    have live: "(let deletion = api_query rt self
                           (resource_path self @ ''/'' @ format_s rt rid) ''DELETE'' VNone ?w3;
                       sent = fetched (new_events w1 (snd deletion))
                   in list_all (\<lambda>rr. url (fst rr) = api_endpoint (module self)
                                         @ resource_path self @ ''/'' @ format_s rt rid
                                \<and> meth (fst rr) = ''DELETE'') sent
                      \<and> (0 < api_retries (module self) \<longrightarrow> sent \<noteq> [])
                      \<and> (case fst deletion of
                            Inl e \<Rightarrow> res = Inl e \<and> w' = snd deletion
                          | Inr deleted \<Rightarrow>
                              res = Inr ()
                              \<and> new_events w1 w'
                                  = new_events w1 (snd deletion) @ [Exited (result w')]
                              \<and> payload (result w') = resource))
          \<and> reported w' = reported ?w3"
      if l: "\<not> check_mode (module self)"
        and rid: "subscript resource (resource_key_id self) = Inr rid" for rid
    proof -
      obtain r w4 where d: "api_query rt self (resource_path self @ ''/'' @ format_s rt rid)
          ''DELETE'' VNone ?w3 = (r, w4)"
        by (cases "api_query rt self (resource_path self @ ''/'' @ format_s rt rid)
          ''DELETE'' VNone ?w3")
      have nw: "new_events w1 w4 = new_events ?w3 w4" by (simp add: new_events_def)
      from api_query_sent [OF d, folded nw]
      have sent: "list_all (\<lambda>rr. url (fst rr) = api_endpoint (module self)
                                         @ resource_path self @ ''/'' @ format_s rt rid
                                \<and> meth (fst rr) = ''DELETE'') (fetched (new_events w1 w4))"
        "0 < api_retries (module self) \<longrightarrow> fetched (new_events w1 w4) \<noteq> []"
        "result w4 = result ?w3"
        by (simp_all add: list_all_iff)
      from api_query_effects [OF d] obtain new2 where new2: "trace w4 = trace w1 @ new2"
        by auto
      from b l rid d have c: "(case r of Inl e \<Rightarrow> (Inl e, w4)
                            | Inr deleted \<Rightarrow> get_result self resource w4) = (res, w')"
        by simp
      show ?thesis
      proof (cases r)
        case (Inl e)
        with c have "res = Inl e" "w' = w4" by simp_all
        with sent Inl d show ?thesis by (simp add: Let_def reported_def)
      next
        case (Inr deleted)
        with c have "get_result self resource w4 = (res, w')" by simp
        then have "res = Inr ()"
          "w' = w4\<lparr>result := (result w4)\<lparr>payload := resource\<rparr>,
                  trace := trace w4 @ [Exited ((result w4)\<lparr>payload := resource\<rparr>)]\<rparr>"
          by (simp_all add: get_result_eq)
        with sent Inr d new2 show ?thesis
          by (simp add: Let_def reported_def new_events_def)
      qed
    qed
    have rep: "reported w' = reported ?w3"
    proof (cases "check_mode (module self)")
      case True
      with dry show ?thesis by simp
    next
      case False
      show ?thesis
      proof (cases "subscript resource (resource_key_id self)")
        case (Inl e)
        with b False have "(Inl e, ?w3) = (res, w')" by simp
        then have "w' = ?w3" by simp
        then show ?thesis by simp
      next
        case (Inr rid)
        from live [OF False this] show ?thesis by simp
      qed
    qed
    then have "changed (result w')" "diff_before (result w') = snapshot"
      "diff_after (result w') = []"
      by (simp_all add: reported_def)
    moreover have "check_mode (module self)
              \<longrightarrow> res = Inr () \<and> new_events w1 w' = [Exited (result w')]
                  \<and> payload (result w') = resource"
      using dry by blast
    moreover have "\<forall>rid. \<not> check_mode (module self)
                \<and> subscript resource (resource_key_id self) = Inr rid
              \<longrightarrow> (let deletion = api_query rt self
                           (resource_path self @ ''/'' @ format_s rt rid) ''DELETE'' VNone ?w3;
                       sent = fetched (new_events w1 (snd deletion))
                   in list_all (\<lambda>rr. url (fst rr) = api_endpoint (module self)
                                         @ resource_path self @ ''/'' @ format_s rt rid
                                \<and> meth (fst rr) = ''DELETE'') sent
                      \<and> (0 < api_retries (module self) \<longrightarrow> sent \<noteq> [])
                      \<and> (case fst deletion of
                            Inl e \<Rightarrow> res = Inl e \<and> w' = snd deletion
                          | Inr deleted \<Rightarrow>
                              res = Inr ()
                              \<and> new_events w1 w'
                                  = new_events w1 (snd deletion) @ [Exited (result w')]
                              \<and> payload (result w') = resource))"
    proof (intro allI impI)
      fix rid
      assume "\<not> check_mode (module self)
                \<and> subscript resource (resource_key_id self) = Inr rid"
      then have "\<not> check_mode (module self)"
        "subscript resource (resource_key_id self) = Inr rid" by simp_all
      from live [OF this] show "let deletion = api_query rt self
                           (resource_path self @ ''/'' @ format_s rt rid) ''DELETE'' VNone ?w3;
                       sent = fetched (new_events w1 (snd deletion))
                   in list_all (\<lambda>rr. url (fst rr) = api_endpoint (module self)
                                         @ resource_path self @ ''/'' @ format_s rt rid
                                \<and> meth (fst rr) = ''DELETE'') sent
                      \<and> (0 < api_retries (module self) \<longrightarrow> sent \<noteq> [])
                      \<and> (case fst deletion of
                            Inl e \<Rightarrow> res = Inl e \<and> w' = snd deletion
                          | Inr deleted \<Rightarrow>
                              res = Inr ()
                              \<and> new_events w1 w'
                                  = new_events w1 (snd deletion) @ [Exited (result w')]
                              \<and> payload (result w') = resource)"
        by (rule conjunct1)
    qed
    ultimately show ?thesis by (intro conjI)
  qed
  have B: "changed (result w')" if t: "py_truthy resource"
  proof (cases "dict_copy resource")
    case (Inl e)
    with a t have "(Inl e, w1\<lparr>result := (result w1)\<lparr>changed := True\<rparr>\<rparr>) = (res, w')"
      by simp
    then have "w' = w1\<lparr>result := (result w1)\<lparr>changed := True\<rparr>\<rparr>" by simp
    then show ?thesis by simp
  next
    case (Inr snapshot)
    then have "resource = VDict snapshot" by (cases resource) simp_all
    from C [OF t this] show ?thesis by simp
  qed
  from absent_effects [OF assms(2)] obtain new where
    "trace w' = trace w @ new" "exited new = (if res = Inr () then [result w'] else [])"
    by blast
  then have D: "exited (new_events w w') = (if res = Inr () then [result w'] else [])"
    by simp
  have E: "\<not> changed (result (init_state s self))"
    by (simp add: init_state_def init_result_def)
  have C': "\<forall>snapshot. py_truthy resource \<and> resource = VDict snapshot
          \<longrightarrow> diff_before (result w') = snapshot \<and> diff_after (result w') = []
              \<and> (check_mode (module self)
                    \<longrightarrow> res = Inr () \<and> new_events w1 w' = [Exited (result w')]
                        \<and> payload (result w') = resource)
              \<and> (\<forall>rid. \<not> check_mode (module self)
                      \<and> subscript resource (resource_key_id self) = Inr rid
                    \<longrightarrow> (let deletion = api_query rt self
                                 (resource_path self @ ''/'' @ format_s rt rid) ''DELETE'' VNone
                                 (record_diff snapshot [] w1);
                             sent = fetched (new_events w1 (snd deletion))
                         in list_all (\<lambda>rr. url (fst rr) = api_endpoint (module self)
                                               @ resource_path self @ ''/'' @ format_s rt rid
                                      \<and> meth (fst rr) = ''DELETE'') sent
                            \<and> (0 < api_retries (module self) \<longrightarrow> sent \<noteq> [])
                            \<and> (case fst deletion of
                                  Inl e \<Rightarrow> res = Inl e \<and> w' = snd deletion
                                | Inr deleted \<Rightarrow>
                                    res = Inr ()
                                    \<and> new_events w1 w'
                                        = new_events w1 (snd deletion) @ [Exited (result w')]
                                    \<and> payload (result w') = resource)))"
  proof (intro allI impI)
    fix snapshot
    assume "py_truthy resource \<and> resource = VDict snapshot"
    then have "py_truthy resource" "resource = VDict snapshot" by blast+
    from C [OF this] show "diff_before (result w') = snapshot \<and> diff_after (result w') = []
              \<and> (check_mode (module self)
                    \<longrightarrow> res = Inr () \<and> new_events w1 w' = [Exited (result w')]
                        \<and> payload (result w') = resource)
              \<and> (\<forall>rid. \<not> check_mode (module self)
                      \<and> subscript resource (resource_key_id self) = Inr rid
                    \<longrightarrow> (let deletion = api_query rt self
                                 (resource_path self @ ''/'' @ format_s rt rid) ''DELETE'' VNone
                                 (record_diff snapshot [] w1);
                             sent = fetched (new_events w1 (snd deletion))
                         in list_all (\<lambda>rr. url (fst rr) = api_endpoint (module self)
                                               @ resource_path self @ ''/'' @ format_s rt rid
                                      \<and> meth (fst rr) = ''DELETE'') sent
                            \<and> (0 < api_retries (module self) \<longrightarrow> sent \<noteq> [])
                            \<and> (case fst deletion of
                                  Inl e \<Rightarrow> res = Inl e \<and> w' = snd deletion
                                | Inr deleted \<Rightarrow>
                                    res = Inr ()
                                    \<and> new_events w1 w'
                                        = new_events w1 (snd deletion) @ [Exited (result w')]
                                    \<and> payload (result w') = resource)))"
      by blast
  qed
  have A': "\<not> py_truthy resource
        \<longrightarrow> res = Inr () \<and> new_events w1 w' = [Exited (result w')]
            \<and> result w' = (result w)\<lparr>payload := resource\<rparr>"
    using A by blast
  have B': "py_truthy resource \<longrightarrow> changed (result w')" using B by blast
  from A' B' C' D E show ?thesis by (intro conjI)
qed

lemma sample_query_empty:
  "fst (query (faithful_runtime (sample_vultr False) 0) (sample_vultr False) VNone
          (init_state [] (sample_vultr False))) = Inr (VDict [])"
  by code_simp

lemma sample_query_found:
  "fst (query (faithful_runtime (sample_vultr False) 0) (sample_vultr False) VNone
          (init_state sample_store (sample_vultr False))) = Inr (VDict (hd sample_store))"
  by code_simp

lemma sample_absent_empty:
  "map (\<lambda>r. (changed r, payload r, diff_before r, diff_after r))
        (exited (trace (snd (absent (faithful_runtime (sample_vultr False) 0) (sample_vultr False)
          (init_state [] (sample_vultr False))))))
       = [(False, VDict [], [], [])]"
  by code_simp

lemma sample_absent_found:
  "fst (absent (faithful_runtime (sample_vultr False) 0) (sample_vultr False)
          (init_state sample_store (sample_vultr False))) = Inr ()
   \<and> map (\<lambda>r. (changed r, payload r, diff_before r, diff_after r))
        (exited (trace (snd (absent (faithful_runtime (sample_vultr False) 0) (sample_vultr False)
          (init_state sample_store (sample_vultr False))))))
       = [(True, VDict (hd sample_store), hd sample_store, [])]
   \<and> map (\<lambda>rr. (meth (fst rr), url (fst rr)))
        (fetched (trace (snd (absent (faithful_runtime (sample_vultr False) 0)
          (sample_vultr False) (init_state sample_store (sample_vultr False))))))
       = [(''GET'', ''https://api.vultr.com/v2/domains''),
          (''DELETE'', ''https://api.vultr.com/v2/domains/example.com'')]"
  by code_simp

theorem absent_behaviour_witness:
  "fst (query (faithful_runtime (sample_vultr False) 0) (sample_vultr False) VNone
          (init_state [] (sample_vultr False))) = Inr (VDict [])
   \<and> fst (absent (faithful_runtime (sample_vultr False) 0) (sample_vultr False)
          (init_state [] (sample_vultr False))) = Inr ()
   \<and> map (\<lambda>r. (changed r, payload r, diff_before r, diff_after r))
        (exited (trace (snd (absent (faithful_runtime (sample_vultr False) 0) (sample_vultr False)
          (init_state [] (sample_vultr False))))))
       = [(False, VDict [], [], [])]
   \<and> fst (query (faithful_runtime (sample_vultr False) 0) (sample_vultr False) VNone
          (init_state sample_store (sample_vultr False))) = Inr (VDict (hd sample_store))
   \<and> fst (absent (faithful_runtime (sample_vultr False) 0) (sample_vultr False)
          (init_state sample_store (sample_vultr False))) = Inr ()
   \<and> map (\<lambda>r. (changed r, payload r, diff_before r, diff_after r))
        (exited (trace (snd (absent (faithful_runtime (sample_vultr False) 0) (sample_vultr False)
          (init_state sample_store (sample_vultr False))))))
       = [(True, VDict (hd sample_store), hd sample_store, [])]
   \<and> map (\<lambda>rr. (meth (fst rr), url (fst rr)))
        (fetched (trace (snd (absent (faithful_runtime (sample_vultr False) 0)
          (sample_vultr False) (init_state sample_store (sample_vultr False))))))
       = [(''GET'', ''https://api.vultr.com/v2/domains''),
          (''DELETE'', ''https://api.vultr.com/v2/domains/example.com'')]"
proof -
  let ?rt = "faithful_runtime (sample_vultr False) 0"
  let ?self = "sample_vultr False"
  let ?fresh = "init_state ([] :: (string \<times> val) list list) ?self"
  let ?w = "init_state sample_store ?self"
  have "query ?rt ?self VNone ?fresh
      = (fst (query ?rt ?self VNone ?fresh), snd (query ?rt ?self VNone ?fresh))"
    by (rule prod.collapse [symmetric])
  then have q0: "query ?rt ?self VNone ?fresh
      = (Inr (VDict []), snd (query ?rt ?self VNone ?fresh))"
    by (simp only: sample_query_empty)
  have a0: "absent ?rt ?self ?fresh = (fst (absent ?rt ?self ?fresh), snd (absent ?rt ?self ?fresh))"
    by (rule prod.collapse [symmetric])
  have "query ?rt ?self VNone ?w
      = (fst (query ?rt ?self VNone ?w), snd (query ?rt ?self VNone ?w))"
    by (rule prod.collapse [symmetric])
  then have q: "query ?rt ?self VNone ?w
      = (Inr (VDict (hd sample_store)), snd (query ?rt ?self VNone ?w))"
    by (simp only: sample_query_found)
  have a: "absent ?rt ?self ?w = (fst (absent ?rt ?self ?w), snd (absent ?rt ?self ?w))"
    by (rule prod.collapse [symmetric])
  have f0: "\<not> py_truthy (VDict [])" by simp
  have t1: "py_truthy (VDict (hd sample_store))" by (simp add: sample_store_def)
  note t0 = absent_behaviour [OF q0 a0, THEN conjunct1, THEN mp, OF f0, THEN conjunct1]
  note c1 = absent_behaviour [OF q a, THEN conjunct2, THEN conjunct1, THEN mp, OF t1]
  note e = sample_absent_found
  show ?thesis
    by (simp only: sample_query_empty t0 sample_absent_empty sample_query_found
        e [THEN conjunct1] e [THEN conjunct2, THEN conjunct1]
        e [THEN conjunct2, THEN conjunct2] c1 simp_thms)
qed

section \<open>The echo of the API settings\<close>

lemma emitted_echo:
  assumes "r \<in> set (emitted rt self s)"
  shows "vultr_api r = vultr_api (init_result (module self))"
proof -
  let ?w = "init_state s self"
  obtain pres pw where p: "present rt self ?w = (pres, pw)" by (cases "present rt self ?w")
  obtain ares aw where a: "absent rt self ?w = (ares, aw)" by (cases "absent rt self ?w")
  have w: "trace ?w = []" "result ?w = init_result (module self)"
    by (simp_all add: init_state_def)
  from present_effects [OF p] w have pe:
    "exited (trace pw) = (if pres = Inr () then [result pw] else [])"
    "vultr_api (result pw) = vultr_api (init_result (module self))"
    by auto
  from absent_effects [OF a] w have ae:
    "exited (trace aw) = (if ares = Inr () then [result aw] else [])"
    "vultr_api (result aw) = vultr_api (init_result (module self))"
    by auto
  from assms p a have "r \<in> set (exited (trace pw)) \<or> r \<in> set (exited (trace aw))"
    by (simp add: emitted_def)
  with pe ae show ?thesis by (auto split: if_splits)
qed

text \<open>
  Claim C9. Every result an invocation hands over carries under \<^verbatim>\<open>vultr_api\<close> exactly the
  four entries timeout, retries, retry max delay and endpoint, with the values of the
  module's settings. The API key is not among them, and nothing in the echo depends on it:
  two invocations that differ only in the API key, whatever their transports answer, hand
  over results with the same echo.
\<close>

theorem result_echoes_api_settings:
  "(\<forall>r\<in>set (emitted rt self s).
      vultr_api r = [(''api_timeout'', VInt (api_timeout (module self))),
                     (''api_retries'', VInt (api_retries (module self))),
                     (''api_retry_max_delay'', VInt (api_retry_max_delay (module self))),
                     (''api_endpoint'', VStr (api_endpoint (module self)))])
   \<and> (\<forall>r\<in>set (emitted rt self s).
        \<forall>r'\<in>set (emitted rt' (self\<lparr>module := (module self)\<lparr>api_key := other_key\<rparr>\<rparr>) s').
          vultr_api r = vultr_api r')"
  by (auto simp: emitted_echo init_result_def)

theorem result_echoes_api_settings_witness:
  "map vultr_api (emitted (faithful_runtime (sample_vultr False) 0) (sample_vultr False)
      sample_store)
     = [[(''api_timeout'', VInt 60), (''api_retries'', VInt 5),
         (''api_retry_max_delay'', VInt 12),
         (''api_endpoint'', VStr ''https://api.vultr.com/v2'')],
        [(''api_timeout'', VInt 60), (''api_retries'', VInt 5),
         (''api_retry_max_delay'', VInt 12),
         (''api_endpoint'', VStr ''https://api.vultr.com/v2'')]]
   \<and> map vultr_api (emitted (faithful_runtime (sample_vultr False) 0)
        ((sample_vultr False)\<lparr>module := (module (sample_vultr False))\<lparr>api_key := ''other''\<rparr>\<rparr>)
        sample_store)
     = map vultr_api (emitted (faithful_runtime (sample_vultr False) 0) (sample_vultr False)
        sample_store)"
proof -
  note t = result_echoes_api_settings [of "faithful_runtime (sample_vultr False) 0"
      "sample_vultr False" sample_store "faithful_runtime (sample_vultr False) 0" "''other''"
      sample_store]
  have a: "map vultr_api (emitted (faithful_runtime (sample_vultr False) 0) (sample_vultr False)
      sample_store)
     = [[(''api_timeout'', VInt 60), (''api_retries'', VInt 5),
         (''api_retry_max_delay'', VInt 12),
         (''api_endpoint'', VStr ''https://api.vultr.com/v2'')],
        [(''api_timeout'', VInt 60), (''api_retries'', VInt 5),
         (''api_retry_max_delay'', VInt 12),
         (''api_endpoint'', VStr ''https://api.vultr.com/v2'')]]"
    by code_simp
  have b: "map vultr_api (emitted (faithful_runtime (sample_vultr False) 0)
        ((sample_vultr False)\<lparr>module := (module (sample_vultr False))\<lparr>api_key := ''other''\<rparr>\<rparr>)
        sample_store)
     = [[(''api_timeout'', VInt 60), (''api_retries'', VInt 5),
         (''api_retry_max_delay'', VInt 12),
         (''api_endpoint'', VStr ''https://api.vultr.com/v2'')],
        [(''api_timeout'', VInt 60), (''api_retries'', VInt 5),
         (''api_retry_max_delay'', VInt 12),
         (''api_endpoint'', VStr ''https://api.vultr.com/v2'')]]"
    by code_simp
  from t a b show ?thesis by simp
qed

section \<open>Convergence against the faithful remote side\<close>


lemma target_collection [simp]:
  "target_of self (api_endpoint (module self) @ resource_path self) = Collection"
  by (simp add: target_of_def Let_def)

lemma target_item [simp]:
  "target_of self (api_endpoint (module self) @ resource_path self @ CHR ''/'' # rid) = Item rid"
  by (simp add: target_of_def Let_def)
































end
